theory Spec2Isabelle
  imports Complex_Main "HOL-Library.AList" "HOL-Library.Sublist"
begin

section \<open>Cell values and the runtime's primitives\<close>

text \<open>
  A spreadsheet cell holds nothing, a boolean, an integer, a float, a text, or some other
  object (a date, a time). A float is modelled by the rational number it denotes, or by one
  of the three non-finite values; the two signed zeros are not told apart (no function
  below depends on the sign of a zero). Texts are lists of characters with codes 0..255.
\<close>

datatype pyfloat = Fin rat | PInf | NInf | NaN

datatype cell = CNone | CBool bool | CInt int | CFloat pyfloat | CStr string | COther

datatype py_error = ValueError | TypeError | OverflowError

subsection \<open>Text primitives: \<open>str.strip\<close>, \<open>str.lower\<close>, \<open>str.upper\<close>, \<open>in\<close>\<close>

definition is_space :: "char \<Rightarrow> bool" where
  "is_space c = (c \<in> {CHR 0x09, CHR 0x0A, CHR 0x0B, CHR 0x0C, CHR 0x0D, CHR 0x1C, CHR 0x1D,
                      CHR 0x1E, CHR 0x1F, CHR 0x20, CHR 0x85, CHR 0xA0})"

definition strip :: "string \<Rightarrow> string" where
  "strip s = rev (dropWhile is_space (rev (dropWhile is_space s)))"

text \<open>
  Letter case on the codes 0..255: the letters \<open>A\<close> to \<open>Z\<close> and the accented capitals
  (192 to 222, without the multiplication sign 215) are 32 below their small letters. In
  capitals the sharp s (223) becomes \<open>SS\<close>. The capitals of the micro sign (181) and of the
  y with diaeresis (255) lie beyond code 255, where no text of the model can hold them:
  \<open>upper\<close> leaves these two as they are.
\<close>

definition lower_char :: "char \<Rightarrow> char" where
  "lower_char c = (let n = (of_char c :: int)
                   in if (65 \<le> n \<and> n \<le> 90) \<or> (192 \<le> n \<and> n \<le> 222 \<and> n \<noteq> 215)
                      then char_of (n + 32) else c)"

definition upper_char :: "char \<Rightarrow> char" where
  "upper_char c = (let n = (of_char c :: int)
                   in if (97 \<le> n \<and> n \<le> 122) \<or> (224 \<le> n \<and> n \<le> 254 \<and> n \<noteq> 247)
                      then char_of (n - 32) else c)"

definition lower :: "string \<Rightarrow> string" where
  "lower s = map lower_char s"

definition upper :: "string \<Rightarrow> string" where
  "upper s = concat (map (\<lambda>c. if c = CHR 0xDF then ''SS'' else [upper_char c]) s)"

text \<open>\<open>p in s\<close> on texts: \<open>p\<close> occurs in \<open>s\<close> as a contiguous run.\<close>

fun contains :: "string \<Rightarrow> string \<Rightarrow> bool" where
  "contains p [] = (p = [])"
| "contains p (c # cs) = (prefix p (c # cs) \<or> contains p cs)"

subsection \<open>\<open>str\<close> of an integer\<close>

definition digit_char :: "int \<Rightarrow> char" where
  "digit_char d = char_of (48 + d)"

text \<open>The decimal digits of a non-negative integer, most significant first.\<close>

function str_digits :: "int \<Rightarrow> string" where
  "str_digits n = (if n < 10 then [digit_char n] else str_digits (n div 10) @ [digit_char (n mod 10)])"
  by pat_completeness auto
termination
  by (relation "measure nat") auto

declare str_digits.simps [simp del]

definition str_int :: "int \<Rightarrow> string" where
  "str_int i = (if i < 0 then CHR ''-'' # str_digits (- i) else str_digits i)"

definition str_bool :: "bool \<Rightarrow> string" where
  "str_bool b = (if b then ''True'' else ''False'')"

subsection \<open>Rounding to binary64\<close>

text \<open>
  \<open>float(...)\<close> of a decimal text or of an integer is the binary64 number nearest to it,
  ties to the even significand; a result of magnitude \<open>2 ^ 1024\<close> or more overflows.
\<close>

text \<open>The number of binary digits of a positive integer.\<close>

function bit_length :: "int \<Rightarrow> int" where
  "bit_length n = (if n \<le> 0 then 0 else 1 + bit_length (n div 2))"
  by pat_completeness auto
termination
  by (relation "measure nat") auto

declare bit_length.simps [simp del]

definition pow2 :: "int \<Rightarrow> rat" where
  "pow2 e = (if 0 \<le> e then of_int (2 ^ nat e) else 1 / of_int (2 ^ nat (- e)))"

text \<open>The exponent \<open>e\<close> with \<open>2 ^ e \<le> a < 2 ^ (e + 1)\<close>, for a positive \<open>a\<close>.\<close>

definition ilog2 :: "rat \<Rightarrow> int" where
  "ilog2 a = (let (p, q) = quotient_of a;
                  d = bit_length p - bit_length q
              in if pow2 d \<le> a then d else d - 1)"

definition round_half_even :: "rat \<Rightarrow> int" where
  "round_half_even x = (let f = \<lfloor>x\<rfloor>; d = x - of_int f
                        in if d < 1 / 2 then f else if 1 / 2 < d then f + 1
                           else if even f then f else f + 1)"

definition round_binary64 :: "rat \<Rightarrow> pyfloat" where
  "round_binary64 x =
     (if x = 0 then Fin 0
      else let a = \<bar>x\<bar>;
               e = max (ilog2 a) (- 1022);
               q = pow2 (e - 52);
               y = of_int (round_half_even (a / q)) * q
           in if pow2 1024 \<le> y then (if 0 < x then PInf else NInf)
              else Fin (if 0 < x then y else - y))"

subsection \<open>\<open>float\<close> of a text\<close>

text \<open>
  The grammar of the runtime's \<open>float\<close> on a text, after the surrounding whitespace is
  removed: an optional sign, then \<open>inf\<close>, \<open>infinity\<close> or \<open>nan\<close> in any letter case, or a
  decimal number: digits (single underscores allowed between digits) with an optional
  point, then an optional exponent. Anything else is a \<open>ValueError\<close>.
\<close>

definition is_digit :: "char \<Rightarrow> bool" where
  "is_digit c = (48 \<le> (of_char c :: int) \<and> (of_char c :: int) \<le> 57)"

definition digit_val :: "char \<Rightarrow> int" where
  "digit_val c = of_char c - 48"

fun digitpart_rest :: "int list \<Rightarrow> string \<Rightarrow> int list \<times> string" where
  "digitpart_rest acc [] = (acc, [])"
| "digitpart_rest acc [c] = (if is_digit c then (acc @ [digit_val c], []) else (acc, [c]))"
| "digitpart_rest acc (c # d # ds) =
     (if is_digit c then digitpart_rest (acc @ [digit_val c]) (d # ds)
      else if c = CHR ''_'' \<and> is_digit d then digitpart_rest (acc @ [digit_val d]) ds
      else (acc, c # d # ds))"

definition digitpart :: "string \<Rightarrow> (int list \<times> string) option" where
  "digitpart s = (case s of [] \<Rightarrow> None
                  | c # cs \<Rightarrow> if is_digit c then Some (digitpart_rest [digit_val c] cs) else None)"

definition int_of_digits :: "int list \<Rightarrow> int" where
  "int_of_digits ds = foldl (\<lambda>n d. 10 * n + d) 0 ds"

definition take_sign :: "string \<Rightarrow> bool \<times> string" where
  "take_sign s = (case s of [] \<Rightarrow> (False, [])
                  | c # cs \<Rightarrow> if c = CHR ''-'' then (True, cs)
                             else if c = CHR ''+'' then (False, cs) else (False, c # cs))"

text \<open>The number before the exponent: integer digits, fraction digits, and the rest.\<close>

definition number_part :: "string \<Rightarrow> (int list \<times> int list \<times> string) option" where
  "number_part s =
     (case digitpart s of
        Some (ip, r1) \<Rightarrow>
          (case r1 of
             [] \<Rightarrow> Some (ip, [], [])
           | c # r2 \<Rightarrow>
               if c = CHR ''.'' then
                 (case digitpart r2 of Some (fp, r3) \<Rightarrow> Some (ip, fp, r3)
                                     | None \<Rightarrow> Some (ip, [], r2))
               else Some (ip, [], r1))
      | None \<Rightarrow>
          (case s of
             [] \<Rightarrow> None
           | c # r2 \<Rightarrow>
               if c = CHR ''.'' then
                 (case digitpart r2 of Some (fp, r3) \<Rightarrow> Some ([], fp, r3) | None \<Rightarrow> None)
               else None))"

definition exponent_part :: "string \<Rightarrow> int option" where
  "exponent_part s =
     (case s of
        [] \<Rightarrow> Some 0
      | c # r \<Rightarrow>
          if c = CHR ''e'' \<or> c = CHR ''E'' then
            (let (neg, r') = take_sign r in
             case digitpart r' of
               Some (ds, []) \<Rightarrow> Some (if neg then - int_of_digits ds else int_of_digits ds)
             | _ \<Rightarrow> None)
          else None)"

definition decimal_value :: "int list \<Rightarrow> int list \<Rightarrow> int \<Rightarrow> rat" where
  "decimal_value ip fp ex =
     (let m = int_of_digits (ip @ fp); e10 = ex - int (length fp)
      in if 0 \<le> e10 then of_int (m * 10 ^ nat e10) else of_int m / of_int (10 ^ nat (- e10)))"

definition float_of_str :: "string \<Rightarrow> py_error + pyfloat" where
  "float_of_str s =
     (let (neg, body) = take_sign (strip s); l = lower body
      in if l = ''inf'' \<or> l = ''infinity'' then Inr (if neg then NInf else PInf)
         else if l = ''nan'' then Inr NaN
         else (case number_part body of
                 None \<Rightarrow> Inl ValueError
               | Some (ip, fp, r) \<Rightarrow>
                   (case exponent_part r of
                      None \<Rightarrow> Inl ValueError
                    | Some ex \<Rightarrow>
                        Inr (round_binary64 (if neg then - decimal_value ip fp ex
                                             else decimal_value ip fp ex)))))"

text \<open>\<open>float\<close> of an integer overflows on a value too large for binary64.\<close>

definition float_of_int :: "int \<Rightarrow> py_error + pyfloat" where
  "float_of_int i = (case round_binary64 (of_int i) of
                       Fin r \<Rightarrow> Inr (Fin r) | _ \<Rightarrow> Inl OverflowError)"

text \<open>\<open>int\<close> of a float truncates towards zero; it has no value on the non-finite floats.\<close>

definition truncate_rat :: "rat \<Rightarrow> int" where
  "truncate_rat r = (if 0 \<le> r then \<lfloor>r\<rfloor> else \<lceil>r\<rceil>)"

definition int_of_float :: "pyfloat \<Rightarrow> py_error + int" where
  "int_of_float f = (case f of
                       Fin r \<Rightarrow> Inr (truncate_rat r)
                     | NaN \<Rightarrow> Inl ValueError
                     | _ \<Rightarrow> Inl OverflowError)"

definition float_is_zero :: "pyfloat \<Rightarrow> bool" where
  "float_is_zero f = (f = Fin 0)"

text \<open>\<open>try: ... except (ValueError, TypeError): return d\<close>: any other error propagates.\<close>

definition except_value_type :: "py_error + 'a \<Rightarrow> 'a \<Rightarrow> py_error + 'a" where
  "except_value_type r d = (case r of
                              Inl ValueError \<Rightarrow> Inr d
                            | Inl TypeError \<Rightarrow> Inr d
                            | _ \<Rightarrow> r)"

definition bind_err :: "py_error + 'a \<Rightarrow> ('a \<Rightarrow> py_error + 'b) \<Rightarrow> py_error + 'b" where
  "bind_err r f = (case r of Inl e \<Rightarrow> Inl e | Inr x \<Rightarrow> f x)"

section \<open>The field normalizers of \<open>import_payroll.py\<close>\<close>

text \<open>
  \<open>parse_integer\<close> (lines 40 to 57), \<open>parse_float\<close> (60 to 77), \<open>parse_text\<close> (80 to 89) and
  \<open>parse_last_hire_date\<close> (92 to 107), one case per type test of the source, in its order.
  A result is the value returned, or the error that leaves the function.
\<close>

definition parse_integer :: "cell \<Rightarrow> py_error + int option" where
  "parse_integer v =
     (case v of
        CNone \<Rightarrow> Inr None
      | CBool b \<Rightarrow> Inr (Some (if b then 1 else 0))
      | CInt i \<Rightarrow> Inr (Some i)
      | CFloat f \<Rightarrow> except_value_type (bind_err (int_of_float f) (\<lambda>i. Inr (Some i))) None
      | CStr s \<Rightarrow>
          (let s' = strip s
           in if s' = [] \<or> s' = ''-'' then Inr None
              else except_value_type
                     (bind_err (float_of_str s') (\<lambda>f. bind_err (int_of_float f) (\<lambda>i. Inr (Some i))))
                     None)
      | COther \<Rightarrow> Inr None)"

definition parse_float :: "cell \<Rightarrow> py_error + pyfloat option" where
  "parse_float v =
     (case v of
        CNone \<Rightarrow> Inr None
      | CBool b \<Rightarrow> Inr (Some (Fin (if b then 1 else 0)))
      | CInt i \<Rightarrow> except_value_type (bind_err (float_of_int i) (\<lambda>f. Inr (Some f))) None
      | CFloat f \<Rightarrow> Inr (Some f)
      | CStr s \<Rightarrow>
          (let s' = strip s
           in if s' = [] \<or> s' = ''-'' then Inr None
              else except_value_type (bind_err (float_of_str s') (\<lambda>f. Inr (Some f))) None)
      | COther \<Rightarrow> Inr None)"

text \<open>
  \<open>str\<close> of a float (the shortest text that reads back as the same float) is not
  modelled: \<open>parse_text\<close> takes it as the parameter \<open>frepr\<close>.
\<close>

definition parse_text :: "(pyfloat \<Rightarrow> string) \<Rightarrow> cell \<Rightarrow> string option" where
  "parse_text frepr v =
     (case v of
        CNone \<Rightarrow> None
      | CBool b \<Rightarrow> (if b then Some (strip (str_bool b)) else None)
      | CInt i \<Rightarrow> (if i \<noteq> 0 then Some (strip (str_int i)) else None)
      | CFloat f \<Rightarrow> (if \<not> float_is_zero f then Some (strip (frepr f)) else None)
      | CStr s \<Rightarrow> (let s' = strip s in if s' \<noteq> [] \<and> s' \<noteq> ''-'' then Some s' else None)
      | COther \<Rightarrow> None)"

definition parse_last_hire_date :: "cell \<Rightarrow> py_error + string option" where
  "parse_last_hire_date v =
     (case v of
        CNone \<Rightarrow> Inr None
      | CBool b \<Rightarrow> Inr (Some (str_int (if b then 1 else 0)))
      | CInt i \<Rightarrow> Inr (Some (str_int i))
      | CFloat f \<Rightarrow> bind_err (int_of_float f) (\<lambda>i. Inr (Some (str_int i)))
      | CStr s \<Rightarrow>
          (let s' = strip s
           in if s' = ''-'' \<or> s' = [] then Inr None
              else except_value_type
                     (bind_err (float_of_str s')
                        (\<lambda>f. bind_err (int_of_float f) (\<lambda>i. Inr (Some (str_int i)))))
                     (if s' \<noteq> [] then Some s' else None))
      | COther \<Rightarrow> Inr None)"

text \<open>
  The wage fields of \<open>parse_earnings_row\<close>: \<open>parse_float(...) or 0.0\<close>. A missing result and a
  zero are both replaced by \<open>0.0\<close>.
\<close>

definition or_zero :: "pyfloat option \<Rightarrow> pyfloat" where
  "or_zero r = (case r of None \<Rightarrow> Fin 0 | Some f \<Rightarrow> if float_is_zero f then Fin 0 else f)"

definition wage_field :: "cell \<Rightarrow> py_error + pyfloat" where
  "wage_field v = bind_err (parse_float v) (\<lambda>r. Inr (or_zero r))"

section \<open>Rows, sheets and the schema resolver\<close>

text \<open>
  A normalized field value, and a parsed row: a dictionary from field names to values, in
  insertion order. A dictionary is an association list updated with \<open>AList.update\<close>, which
  replaces the value of a key that is present in place and appends a new key at the end.
\<close>

datatype val = VNone | VInt int | VFloat pyfloat | VStr string

type_synonym fields = "(string \<times> val) list"

record sheet =
  header :: "cell list"
  rows :: "cell list list"

type_synonym workbook = "(string \<times> sheet) list"

definition sheetnames :: "workbook \<Rightarrow> string list" where
  "sheetnames wb = map fst wb"

fun find_sheet_by_pattern :: "string list \<Rightarrow> string \<Rightarrow> string option" where
  "find_sheet_by_pattern [] pattern = None"
| "find_sheet_by_pattern (sheet_name # names) pattern =
     (if contains (lower pattern) (lower sheet_name) then Some sheet_name
      else find_sheet_by_pattern names pattern)"

text \<open>
  The header loop of \<open>get_active_column_name\<close>. \<open>str\<close> of a cell that is not a text (nothing,
  a number, a boolean, a date) never contains \<open>ACTIVE_ON_JUNE_30\<close>, so only texts match.
\<close>

fun first_active_header :: "cell list \<Rightarrow> string option" where
  "first_active_header [] = None"
| "first_active_header (CStr col_name # hs) =
     (if col_name \<noteq> [] \<and> contains ''ACTIVE_ON_JUNE_30'' (upper col_name) then Some col_name
      else first_active_header hs)"
| "first_active_header (_ # hs) = first_active_header hs"

text \<open>\<open>get_active_column_name\<close>; the source's second argument, the fiscal year, is not used.\<close>

definition get_active_column_name :: "workbook \<Rightarrow> string option" where
  "get_active_column_name wb =
     (case find_sheet_by_pattern (sheetnames wb) ''HR INFO'' of
        None \<Rightarrow> None
      | Some hr_sheet_name \<Rightarrow>
          (case map_of wb hr_sheet_name of
             None \<Rightarrow> None
           | Some sh \<Rightarrow> first_active_header (header sh)))"

section \<open>Row parsing\<close>

text \<open>
  \<open>data[header] = row[i] if i < len(row) else None\<close> for every header, then
  \<open>data.get(name)\<close>. The keys are the header cells; every lookup is by a text.
\<close>

definition build_data :: "cell list \<Rightarrow> cell list \<Rightarrow> (cell \<times> cell) list" where
  "build_data headers row =
     fold (\<lambda>(i, h) data. AList.update h (if i < length row then row ! i else CNone) data)
          (enumerate 0 headers) []"

definition data_get :: "(cell \<times> cell) list \<Rightarrow> string \<Rightarrow> cell" where
  "data_get data k = (case map_of data (CStr k) of Some v \<Rightarrow> v | None \<Rightarrow> CNone)"

datatype kind = KText | KInteger | KFloat | KLastHire | KWage

definition val_of_text :: "string option \<Rightarrow> val" where
  "val_of_text r = (case r of None \<Rightarrow> VNone | Some s \<Rightarrow> VStr s)"

definition val_of_int :: "int option \<Rightarrow> val" where
  "val_of_int r = (case r of None \<Rightarrow> VNone | Some i \<Rightarrow> VInt i)"

definition val_of_float :: "pyfloat option \<Rightarrow> val" where
  "val_of_float r = (case r of None \<Rightarrow> VNone | Some f \<Rightarrow> VFloat f)"

definition norm_field :: "(pyfloat \<Rightarrow> string) \<Rightarrow> kind \<Rightarrow> cell \<Rightarrow> py_error + val" where
  "norm_field frepr k v =
     (case k of
        KText \<Rightarrow> Inr (val_of_text (parse_text frepr v))
      | KInteger \<Rightarrow> bind_err (parse_integer v) (\<lambda>r. Inr (val_of_int r))
      | KFloat \<Rightarrow> bind_err (parse_float v) (\<lambda>r. Inr (val_of_float r))
      | KLastHire \<Rightarrow> bind_err (parse_last_hire_date v) (\<lambda>r. Inr (val_of_text r))
      | KWage \<Rightarrow> bind_err (wage_field v) (\<lambda>f. Inr (VFloat f)))"

text \<open>The entries of a dictionary display are evaluated in order; the first error ends it.\<close>

fun collect :: "(string \<times> (py_error + val)) list \<Rightarrow> py_error + fields" where
  "collect [] = Inr []"
| "collect ((name, r) # rest) =
     (case r of
        Inl e \<Rightarrow> Inl e
      | Inr v \<Rightarrow> (case collect rest of Inl e \<Rightarrow> Inl e | Inr fs \<Rightarrow> Inr ((name, v) # fs)))"

text \<open>The entries of the record built by \<open>parse_hr_row\<close> after \<open>temporary_id\<close>, in order:
  the field, its normalizer, and the column it is read from.\<close>

definition hr_columns :: "(string \<times> kind \<times> string) list" where
  "hr_columns =
     [(''record_nbr'', KInteger, ''RECORD_NBR''),
      (''employee_name'', KText, ''EMPLOYEE_NAME''),
      (''agency_nbr'', KText, ''AGENCY_NBR''),
      (''agency_name'', KText, ''AGENCY_NAME''),
      (''department_nbr'', KText, ''DEPARTMENT_NBR''),
      (''department_name'', KText, ''DEPARTMENT_NAME''),
      (''branch_code'', KText, ''BRANCH_CODE''),
      (''branch_name'', KText, ''BRANCH_NAME''),
      (''job_code'', KText, ''JOB_CODE''),
      (''job_title'', KText, ''JOB_TITLE''),
      (''location_nbr'', KText, ''LOCATION_NBR''),
      (''location_name'', KText, ''LOCATION_NAME''),
      (''location_county_name'', KText, ''LOCATION_COUNTY_NAME''),
      (''reg_temp_code'', KText, ''REG_TEMP_CODE''),
      (''reg_temp_desc'', KText, ''REG_TEMP_DESC''),
      (''classified_code'', KText, ''CLASSIFIED_CODE''),
      (''classified_desc'', KText, ''CLASSIFIED_DESC''),
      (''original_hire_date'', KInteger, ''ORIGINAL_HIRE_DATE''),
      (''last_hire_date'', KLastHire, ''LAST_HIRE_DATE''),
      (''job_entry_date'', KInteger, ''JOB_ENTRY_DATE''),
      (''full_part_time_code'', KText, ''FULL_PART_TIME_CODE''),
      (''full_part_time_desc'', KText, ''FULL_PART_TIME_DESC''),
      (''salary_plan_grid'', KText, ''SALARY_PLAN_GRID''),
      (''salary_grade_range'', KInteger, ''SALARY_GRADE_RANGE''),
      (''max_salary_step'', KInteger, ''MAX_SALARY_STEP''),
      (''compensation_rate'', KFloat, ''COMPENSATION_RATE''),
      (''comp_frequency_code'', KText, ''COMP_FREQUENCY_CODE''),
      (''comp_frequency_desc'', KText, ''COMP_FREQUENCY_DESC''),
      (''position_fte'', KFloat, ''POSITION_FTE''),
      (''bargaining_unit_nbr'', KInteger, ''BARGAINING_UNIT_NBR''),
      (''bargaining_unit_name'', KText, ''BARGAINING_UNIT_NAME'')]"

definition earnings_columns :: "(string \<times> kind \<times> string) list" where
  "earnings_columns =
     [(''regular_wages'', KWage, ''REGULAR_WAGES''),
      (''overtime_wages'', KWage, ''OVERTIME_WAGES''),
      (''other_wages'', KWage, ''OTHER_WAGES''),
      (''total_wages'', KWage, ''TOTAL_WAGES'')]"

definition read_columns ::
  "(pyfloat \<Rightarrow> string) \<Rightarrow> (cell \<times> cell) list \<Rightarrow> (string \<times> kind \<times> string) list
     \<Rightarrow> (string \<times> (py_error + val)) list" where
  "read_columns frepr data cols = map (\<lambda>(name, k, h). (name, norm_field frepr k (data_get data h))) cols"

text \<open>
  \<open>parse_hr_row\<close>: no record for a row without an identifier, and none for a row on which a
  normalizer raises (\<open>except Exception: return None\<close>).
\<close>

definition parse_hr_row ::
  "(pyfloat \<Rightarrow> string) \<Rightarrow> cell list \<Rightarrow> cell list \<Rightarrow> string option \<Rightarrow> fields option" where
  "parse_hr_row frepr row headers active_col_name =
     (let data = build_data headers row
      in case parse_text frepr (data_get data ''TEMPORARY_ID'') of
           None \<Rightarrow> None
         | Some temporary_id \<Rightarrow>
             if temporary_id = [] then None
             else (case collect (read_columns frepr data hr_columns) of
                     Inl e \<Rightarrow> None
                   | Inr fs \<Rightarrow>
                       Some ((''temporary_id'', VStr temporary_id) # fs @
                             [(''active_on_june_30'',
                               (case active_col_name of
                                  None \<Rightarrow> VNone
                                | Some a \<Rightarrow> if a = [] then VNone
                                            else val_of_text (parse_text frepr (data_get data a))))])))"

definition parse_earnings_row ::
  "(pyfloat \<Rightarrow> string) \<Rightarrow> cell list \<Rightarrow> cell list \<Rightarrow> fields option" where
  "parse_earnings_row frepr row headers =
     (let data = build_data headers row
      in case parse_text frepr (data_get data ''TEMPORARY_ID'') of
           None \<Rightarrow> None
         | Some temporary_id \<Rightarrow>
             if temporary_id = [] then None
             else (case collect (read_columns frepr data earnings_columns) of
                     Inl e \<Rightarrow> None
                   | Inr fs \<Rightarrow> Some ((''temporary_id'', VStr temporary_id) # fs)))"

section \<open>The record join of \<open>import_payroll_file\<close>\<close>

text \<open>
  The two lookups \<open>hr_data\<close> and \<open>earnings_data\<close>: dictionaries from the identifier to the
  parsed row, filled by one pass over the rows of the sheet.
\<close>

definition store_parsed :: "fields option \<Rightarrow> (string \<times> fields) list \<Rightarrow> (string \<times> fields) list" where
  "store_parsed parsed d =
     (case parsed of
        None \<Rightarrow> d
      | Some p \<Rightarrow>
          (case map_of p ''temporary_id'' of
             Some (VStr t) \<Rightarrow> if t \<noteq> [] then AList.update t p d else d
           | _ \<Rightarrow> d))"

text \<open>
  The identifier under which \<open>store_parsed\<close> files a parsed row, if it files it: the text
  in its \<open>temporary_id\<close> field, when the row was parsed and the text is not empty.
\<close>

definition identifier_of :: "fields option \<Rightarrow> string option" where
  "identifier_of parsed =
     (case parsed of
        None \<Rightarrow> None
      | Some p \<Rightarrow>
          (case map_of p ''temporary_id'' of
             Some (VStr t) \<Rightarrow> if t \<noteq> [] then Some t else None
           | _ \<Rightarrow> None))"

definition read_hr ::
  "(pyfloat \<Rightarrow> string) \<Rightarrow> cell list \<Rightarrow> string option \<Rightarrow> cell list list \<Rightarrow> (string \<times> fields) list" where
  "read_hr frepr hr_headers active_col_name rws =
     fold (\<lambda>row hr_data. store_parsed (parse_hr_row frepr row hr_headers active_col_name) hr_data)
          rws []"

definition read_earnings ::
  "(pyfloat \<Rightarrow> string) \<Rightarrow> cell list \<Rightarrow> cell list list \<Rightarrow> (string \<times> fields) list" where
  "read_earnings frepr earnings_headers rws =
     fold (\<lambda>row earnings_data. store_parsed (parse_earnings_row frepr row earnings_headers) earnings_data)
          rws []"

definition get_default :: "fields \<Rightarrow> string \<Rightarrow> val \<Rightarrow> val" where
  "get_default d k dflt = (case map_of d k of Some v \<Rightarrow> v | None \<Rightarrow> dflt)"

definition dict_update :: "fields \<Rightarrow> fields \<Rightarrow> fields" where
  "dict_update d kvs = fold (\<lambda>(k, v) d'. AList.update k v d') kvs d"

definition combine :: "int \<Rightarrow> (string \<times> fields) list \<Rightarrow> string \<times> fields \<Rightarrow> fields" where
  "combine fiscal_year earnings_data item =
     (let (temp_id, hr_record) = item;
          earnings_record = (case map_of earnings_data temp_id of Some r \<Rightarrow> r | None \<Rightarrow> [])
      in dict_update hr_record
           [(''fiscal_year'', VStr (str_int fiscal_year)),
            (''regular_wages'', get_default earnings_record ''regular_wages'' (VFloat (Fin 0))),
            (''overtime_wages'', get_default earnings_record ''overtime_wages'' (VFloat (Fin 0))),
            (''other_wages'', get_default earnings_record ''other_wages'' (VFloat (Fin 0))),
            (''total_wages'', get_default earnings_record ''total_wages'' (VFloat (Fin 0)))])"

definition join_records ::
  "int \<Rightarrow> (string \<times> fields) list \<Rightarrow> (string \<times> fields) list \<Rightarrow> fields list" where
  "join_records fiscal_year hr_data earnings_data = map (combine fiscal_year earnings_data) hr_data"

section \<open>Batched loading\<close>

text \<open>
  The persistent store is outside the program. A call either returns, with the number of
  rows in \<open>result.data\<close> (\<open>0\<close> also stands for no data at all), or raises. What the store
  answers may depend on every call made before.
\<close>

datatype 'r call = Upsert "'r list" | Insert "'r list"

datatype outcome = Returned nat | Raised

type_synonym 'r store = "'r call list \<Rightarrow> 'r call \<Rightarrow> outcome"

text \<open>\<open>range(i, n, step)\<close> for a positive step (the batch size is a positive constant).\<close>

function py_range :: "nat \<Rightarrow> nat \<Rightarrow> nat \<Rightarrow> nat list" where
  "py_range i n step = (if i < n \<and> 0 < step then i # py_range (i + step) n step else [])"
  by pat_completeness auto
termination
  by (relation "measure (\<lambda>(i, n, step). n - i)") auto

declare py_range.simps [simp del]

text \<open>The slices \<open>records[i:i + BATCH_SIZE]\<close> the loop goes through, in order.\<close>

definition slices :: "nat \<Rightarrow> 'r list \<Rightarrow> 'r list list" where
  "slices B records = map (\<lambda>i. take B (drop i records)) (py_range 0 (length records) B)"

text \<open>
  The loop of \<open>import_payroll_file\<close>: one plain insert per batch; a batch whose insert
  raises is added to \<open>skipped\<close> and the loop goes on. The state is
  \<open>((total_inserted, skipped), calls made)\<close>.
\<close>

definition payroll_step ::
  "'r store \<Rightarrow> 'r list \<Rightarrow> (nat \<times> nat) \<times> 'r call list \<Rightarrow> (nat \<times> nat) \<times> 'r call list" where
  "payroll_step store batch st =
     (let ((total_inserted, skipped), calls) = st; c = Insert batch
      in case store calls c of
           Returned n \<Rightarrow>
             ((total_inserted + (if n \<noteq> 0 then n else length batch), skipped), calls @ [c])
         | Raised \<Rightarrow> ((total_inserted, skipped + length batch), calls @ [c]))"

definition payroll_load :: "nat \<Rightarrow> 'r store \<Rightarrow> 'r list \<Rightarrow> (nat \<times> nat) \<times> 'r call list" where
  "payroll_load B store records = fold (payroll_step store) (slices B records) ((0, 0), [])"

text \<open>
  \<open>import_payroll_file\<close> (lines 213 to 299), from the opened workbook on, with the batch
  size (the constant 1000 in the source) as the parameter \<open>B\<close>. Every early \<open>return 0, 0\<close>
  of the source is a branch here; a sheet name that was found names a sheet of the workbook.
\<close>

definition import_payroll_file ::
  "(pyfloat \<Rightarrow> string) \<Rightarrow> nat \<Rightarrow> fields store \<Rightarrow> workbook \<Rightarrow> int \<Rightarrow> (nat \<times> nat) \<times> fields call list" where
  "import_payroll_file frepr B store wb fiscal_year =
     (case find_sheet_by_pattern (sheetnames wb) ''HR INFO'' of
        None \<Rightarrow> ((0, 0), [])
      | Some hr_sheet_name \<Rightarrow>
          (case find_sheet_by_pattern (sheetnames wb) ''EARNINGS'' of
             None \<Rightarrow> ((0, 0), [])
           | Some earnings_sheet_name \<Rightarrow>
               (case (map_of wb hr_sheet_name, map_of wb earnings_sheet_name) of
                  (Some hr_sheet, Some earnings_sheet) \<Rightarrow>
                    (let active_col_name = get_active_column_name wb;
                         hr_data = read_hr frepr (header hr_sheet) active_col_name (rows hr_sheet);
                         earnings_data = read_earnings frepr (header earnings_sheet) (rows earnings_sheet);
                         records = join_records fiscal_year hr_data earnings_data
                     in if records = [] then ((0, 0), []) else payroll_load B store records)
                | _ \<Rightarrow> ((0, 0), []))))"

text \<open>
  The loop of \<open>import_budget_file\<close> (\<open>import_budgets.py\<close>, lines 119 to 140): an upsert per batch; when it raises, one plain insert
  of the same batch; when that raises too, the error is raised again, which ends the loop.
  The result is the total, or nothing when the loop was left by the error.
\<close>

fun budget_batches ::
  "'r store \<Rightarrow> 'r list list \<Rightarrow> nat \<Rightarrow> 'r call list \<Rightarrow> nat option \<times> 'r call list" where
  "budget_batches store [] total_inserted calls = (Some total_inserted, calls)"
| "budget_batches store (batch # rest) total_inserted calls =
     (case store calls (Upsert batch) of
        Returned n \<Rightarrow> budget_batches store rest (total_inserted + n) (calls @ [Upsert batch])
      | Raised \<Rightarrow>
          (case store (calls @ [Upsert batch]) (Insert batch) of
             Returned n \<Rightarrow>
               budget_batches store rest (total_inserted + (if n \<noteq> 0 then n else length batch))
                 (calls @ [Upsert batch, Insert batch])
           | Raised \<Rightarrow> (None, calls @ [Upsert batch, Insert batch])))"

text \<open>
  \<open>import_budget_file\<close> from the parsed records on: \<open>skipped\<close> counts the rows that did not
  parse. The error that leaves the loop is caught by the function's last handler, which
  returns \<open>0, skipped\<close>.
\<close>

definition import_budget_load ::
  "nat \<Rightarrow> 'r store \<Rightarrow> 'r list \<Rightarrow> nat \<Rightarrow> (nat \<times> nat) \<times> 'r call list" where
  "import_budget_load B store records skipped =
     (if records = [] then ((0, skipped), [])
      else case budget_batches store (slices B records) 0 [] of
             (Some total_inserted, calls) \<Rightarrow> ((total_inserted, skipped), calls)
           | (None, calls) \<Rightarrow> ((0, skipped), calls))"

section \<open>The FY2025 script\<close>

text \<open>
  \<open>import_fy2025_payroll.py\<close> works on data frames. A frame is modelled by its column labels,
  in order, and its rows; a row holds, in the order of the columns, each label with the
  cell under it. Labels are texts. \<open>CNone\<close> is the missing value: the library's
  not-a-number, its other missing markers and \<open>None\<close> are not told apart. The frames that
  \<open>read_excel\<close> gives have no label twice (it renames a repeated header); the join gives no
  label twice or raises; the renaming of line 130 can give two columns one label.

  What the library computes inside a column is not modelled. Each such computation is a
  parameter that gives the new column from the old one, or nothing when the library raises:
  the types it settles for the joined columns, \<open>apply(to_int_safe)\<close>,
  \<open>to_numeric(...).fillna(0)\<close>, \<open>apply(last_hire_safe)\<close>, \<open>to_numeric(...).astype("Int64")\<close>
  and the \<open>apply\<close> of line 159. So is the comparison of keys, which the library decides from
  the types of the key columns: when two keys of the detail frame are duplicates, and when
  a key of the roster matches a key of the detail frame (or that the two key columns
  cannot be joined, and the join raises). What is modelled is what happens to columns and
  rows: which labels exist, in which order, and which row holds which cell.
\<close>

type_synonym frame_row = "(string \<times> cell) list"

record frame =
  fcols :: "string list"
  frows :: "frame_row list"

record pandas =
  dup_key :: "cell list \<Rightarrow> cell \<Rightarrow> cell \<Rightarrow> bool"
  same_key :: "cell list \<Rightarrow> cell list \<Rightarrow> (cell \<Rightarrow> cell \<Rightarrow> bool) option"
  merge_cast :: "cell list \<Rightarrow> cell list option"
  apply_to_int_safe :: "cell list \<Rightarrow> cell list option"
  to_numeric_fillna :: "cell list \<Rightarrow> cell list option"
  apply_last_hire_safe :: "cell list \<Rightarrow> cell list option"
  to_numeric_Int64 :: "cell list \<Rightarrow> cell list option"
  apply_int :: "cell list \<Rightarrow> cell list option"

text \<open>
  The ways the script ends before its last line: no sheet found (\<open>SystemExit\<close>), a column
  that is not there (\<open>KeyError\<close>), a join whose column labels collide, an error raised
  inside the library, no address or key of the store in the environment (\<open>SystemExit\<close>), an
  error raised in the loop over the records, and an upsert that raises.
\<close>

datatype fy_abort =
  NoSheets | NoColumn string | ColumnsClash | LibraryRaised | NoClient | LoopRaised py_error
  | UpsertRaised

text \<open>
  The comparison of keys when the key columns hold texts, or hold numbers: texts and
  missing keys are compared as they are (a missing key matches a missing key), numbers by
  their value, so that the integer \<open>1\<close> of one frame matches the float \<open>1.0\<close> of the other.
\<close>

definition key_number :: "cell \<Rightarrow> rat option" where
  "key_number c = (case c of CInt i \<Rightarrow> Some (of_int i) | CFloat (Fin r) \<Rightarrow> Some r | _ \<Rightarrow> None)"

definition text_or_number_key :: "cell \<Rightarrow> cell \<Rightarrow> bool" where
  "text_or_number_key a b =
     (case (key_number a, key_number b) of
        (Some x, Some y) \<Rightarrow> x = y
      | (None, None) \<Rightarrow> a = b
      | _ \<Rightarrow> False)"

text \<open>\<open>next((s for s in xl.sheet_names if pattern in s), None)\<close>: the match is case-sensitive.\<close>

definition fy2025_find_sheet :: "string list \<Rightarrow> string \<Rightarrow> string option" where
  "fy2025_find_sheet sheet_names pattern = List.find (\<lambda>s. contains pattern s) sheet_names"

subsection \<open>Columns\<close>

definition cell_of :: "frame_row \<Rightarrow> string \<Rightarrow> cell" where
  "cell_of r c = (case map_of r c of Some v \<Rightarrow> v | None \<Rightarrow> CNone)"

definition column :: "string \<Rightarrow> frame \<Rightarrow> cell list" where
  "column c df = map (\<lambda>r. cell_of r c) (frows df)"

text \<open>
  \<open>df[c] = values\<close>: every column with the label \<open>c\<close> gets the values; without such a column,
  a new last column does. In a row, every cell under the label gets the value, and a row
  without the label gets a new last cell.
\<close>

definition set_cell :: "string \<Rightarrow> cell \<Rightarrow> frame_row \<Rightarrow> frame_row" where
  "set_cell c v r =
     (if c \<in> fst ` set r then map (\<lambda>(k, x). (k, if k = c then v else x)) r else r @ [(c, v)])"

definition assign :: "string \<Rightarrow> cell list \<Rightarrow> frame \<Rightarrow> frame" where
  "assign c vs df =
     \<lparr>fcols = (if c \<in> set (fcols df) then fcols df else fcols df @ [c]),
      frows = map2 (\<lambda>r v. set_cell c v r) (frows df) vs\<rparr>"

text \<open>
  \<open>df[dst] = g(df[src])\<close> for a computation \<open>g\<close> of the library: \<open>KeyError\<close> when the frame has
  no column \<open>src\<close>. With two columns of that label \<open>df[src]\<close> is a frame, not a column, and
  the computation raises. Otherwise the library gives one value for each row, or raises.
\<close>

definition apply_col ::
  "(cell list \<Rightarrow> cell list option) \<Rightarrow> string \<Rightarrow> string \<Rightarrow> frame \<Rightarrow> fy_abort + frame" where
  "apply_col g src dst df =
     (if src \<notin> set (fcols df) then Inl (NoColumn src)
      else if length (filter (\<lambda>c. c = src) (fcols df)) \<noteq> 1 then Inl LibraryRaised
      else case g (column src df) of
             None \<Rightarrow> Inl LibraryRaised
           | Some vs \<Rightarrow> if length vs = length (frows df) then Inr (assign dst vs df)
                       else Inl LibraryRaised)"

text \<open>\<open>for c in cs: if c in df.columns: df[c] = g(df[c])\<close>.\<close>

fun apply_present ::
  "(cell list \<Rightarrow> cell list option) \<Rightarrow> string list \<Rightarrow> frame \<Rightarrow> fy_abort + frame" where
  "apply_present g [] df = Inr df"
| "apply_present g (c # cs) df =
     (if c \<in> set (fcols df)
      then (case apply_col g c c df of Inl e \<Rightarrow> Inl e | Inr df' \<Rightarrow> apply_present g cs df')
      else apply_present g cs df)"

text \<open>\<open>df.drop(columns=cs, errors="ignore")\<close>.\<close>

definition drop_cols :: "string list \<Rightarrow> frame \<Rightarrow> frame" where
  "drop_cols cs df =
     \<lparr>fcols = filter (\<lambda>c. c \<notin> set cs) (fcols df),
      frows = map (filter (\<lambda>(c, v). c \<notin> set cs)) (frows df)\<rparr>"

text \<open>\<open>df.rename(columns=m)\<close>: a label that is a key of \<open>m\<close> is replaced by its value.\<close>

definition rename_label :: "(string \<times> string) list \<Rightarrow> string \<Rightarrow> string" where
  "rename_label m c = (case map_of m c of Some t \<Rightarrow> t | None \<Rightarrow> c)"

definition rename_cols :: "(string \<times> string) list \<Rightarrow> frame \<Rightarrow> frame" where
  "rename_cols m df =
     \<lparr>fcols = map (rename_label m) (fcols df),
      frows = map (map (\<lambda>(c, v). (rename_label m c, v))) (frows df)\<rparr>"

text \<open>
  \<open>df[[c for c in cs if c in df.columns]]\<close>: for each label of the list that the frame has,
  in the order of the list, every column with that label.
\<close>

definition select_cols :: "string list \<Rightarrow> frame \<Rightarrow> frame" where
  "select_cols cs df =
     (let present = filter (\<lambda>c. c \<in> set (fcols df)) cs
      in \<lparr>fcols = concat (map (\<lambda>c. filter (\<lambda>k. k = c) (fcols df)) present),
          frows = map (\<lambda>r. concat (map (\<lambda>c. filter (\<lambda>(k, v). k = c) r) present)) (frows df)\<rparr>)"

text \<open>\<open>df.replace({np.nan: None})\<close>: a float that is not a number becomes the missing value.\<close>

definition replace_nan :: "frame \<Rightarrow> frame" where
  "replace_nan df =
     df\<lparr>frows := map (map (\<lambda>(c, v). (c, if v = CFloat NaN then CNone else v))) (frows df)\<rparr>"

text \<open>
  \<open>df.to_dict(orient="records")\<close>: each row as a dictionary from the labels to the cells;
  of two columns with one label the later one gives the value.
\<close>

definition to_dict :: "frame \<Rightarrow> frame_row list" where
  "to_dict df = map (\<lambda>r. fold (\<lambda>(k, v) d. AList.update k v d) r []) (frows df)"

subsection \<open>The join, lines 47 to 54\<close>

definition row_key :: "frame_row \<Rightarrow> cell" where
  "row_key r = cell_of r ''TEMPORARY_ID''"

text \<open>
  \<open>drop_duplicates(subset=["TEMPORARY_ID"], keep="first")\<close>, on the rows of a frame that has
  the column: a row is kept when no row before it has a duplicate of its key.
\<close>

fun drop_duplicates_first ::
  "(cell \<Rightarrow> cell \<Rightarrow> bool) \<Rightarrow> cell list \<Rightarrow> frame_row list \<Rightarrow> frame_row list" where
  "drop_duplicates_first dup seen [] = []"
| "drop_duplicates_first dup seen (r # rs) =
     (if list_ex (\<lambda>k. dup k (row_key r)) seen then drop_duplicates_first dup seen rs
      else r # drop_duplicates_first dup (seen @ [row_key r]) rs)"

text \<open>
  \<open>hr.merge(earnings, on="TEMPORARY_ID", how="left")\<close>, on two frames that have the key
  column. The columns of the result are those of the roster and then those of the detail
  frame without its key column. A label other than the key that both frames have gets the
  suffix \<open>_x\<close> on the left and \<open>_y\<close> on the right; labels that collide after that end the
  run. Every roster row comes, in order, once per detail row whose key matches its key, in
  the order of the detail rows, with that row's cells after its own; a roster row without
  such a row comes once, with the missing value in the detail columns. The library then
  settles the types of the detail columns.
\<close>

definition right_cols :: "frame \<Rightarrow> string list" where
  "right_cols earnings = filter (\<lambda>c. c \<noteq> ''TEMPORARY_ID'') (fcols earnings)"

definition overlap :: "frame \<Rightarrow> frame \<Rightarrow> string list" where
  "overlap hr earnings =
     filter (\<lambda>c. c \<noteq> ''TEMPORARY_ID'' \<and> c \<in> set (right_cols earnings)) (fcols hr)"

definition left_label :: "frame \<Rightarrow> frame \<Rightarrow> string \<Rightarrow> string" where
  "left_label hr earnings c = (if c \<in> set (overlap hr earnings) then c @ ''_x'' else c)"

definition right_label :: "frame \<Rightarrow> frame \<Rightarrow> string \<Rightarrow> string" where
  "right_label hr earnings c = (if c \<in> set (overlap hr earnings) then c @ ''_y'' else c)"

definition merged_cols :: "frame \<Rightarrow> frame \<Rightarrow> string list" where
  "merged_cols hr earnings =
     map (left_label hr earnings) (fcols hr) @ map (right_label hr earnings) (right_cols earnings)"

text \<open>The row of the result for the roster row \<open>h\<close> and a detail row, or no detail row.\<close>

definition joined_row :: "frame \<Rightarrow> frame \<Rightarrow> frame_row \<Rightarrow> frame_row option \<Rightarrow> frame_row" where
  "joined_row hr earnings h m =
     map (\<lambda>(c, v). (left_label hr earnings c, v)) h
     @ map (\<lambda>c. (right_label hr earnings c, case m of None \<Rightarrow> CNone | Some e \<Rightarrow> cell_of e c))
         (right_cols earnings)"

definition joined_rows :: "(cell \<Rightarrow> cell \<Rightarrow> bool) \<Rightarrow> frame \<Rightarrow> frame \<Rightarrow> frame_row list" where
  "joined_rows match hr earnings =
     concat (map (\<lambda>h. case filter (\<lambda>e. match (row_key h) (row_key e)) (frows earnings) of
                         [] \<Rightarrow> [joined_row hr earnings h None]
                       | ms \<Rightarrow> map (\<lambda>e. joined_row hr earnings h (Some e)) ms)
                 (frows hr))"

definition merge_left :: "pandas \<Rightarrow> frame \<Rightarrow> frame \<Rightarrow> fy_abort + frame" where
  "merge_left pd hr earnings =
     (case same_key pd (column ''TEMPORARY_ID'' hr) (column ''TEMPORARY_ID'' earnings) of
        None \<Rightarrow> Inl LibraryRaised
      | Some match \<Rightarrow>
          if \<not> distinct (merged_cols hr earnings) then Inl ColumnsClash
          else apply_present (merge_cast pd)
                 (map (right_label hr earnings) (right_cols earnings))
                 \<lparr>fcols = merged_cols hr earnings, frows = joined_rows match hr earnings\<rparr>)"

definition FISCAL_YEAR :: string where
  "FISCAL_YEAR = ''2025''"

text \<open>
  Lines 47 to 54: de-duplicate the detail frame, join, set the fiscal year in every row.
  Both \<open>drop_duplicates\<close> and \<open>merge\<close> raise \<open>KeyError\<close> on a frame without the key column.
\<close>

definition fy2025_join :: "pandas \<Rightarrow> frame \<Rightarrow> frame \<Rightarrow> fy_abort + frame" where
  "fy2025_join pd hr earnings =
     (if ''TEMPORARY_ID'' \<notin> set (fcols earnings) then Inl (NoColumn ''TEMPORARY_ID'')
      else if ''TEMPORARY_ID'' \<notin> set (fcols hr) then Inl (NoColumn ''TEMPORARY_ID'')
      else case merge_left pd hr
                  (earnings\<lparr>frows := drop_duplicates_first
                                       (dup_key pd (column ''TEMPORARY_ID'' earnings)) []
                                       (frows earnings)\<rparr>) of
             Inl e \<Rightarrow> Inl e
           | Inr df \<Rightarrow>
               Inr (assign ''fiscal_year'' (replicate (length (frows df)) (CStr FISCAL_YEAR)) df))"

subsection \<open>The columns sent, lines 56 to 159\<close>

definition column_map :: "(string \<times> string) list" where
  "column_map =
     [(''TEMPORARY_ID'', ''temporary_id''),
      (''RECORD_NBR'', ''record_nbr''),
      (''EMPLOYEE_NAME'', ''employee_name''),
      (''AGENCY_NBR'', ''agency_nbr''),
      (''AGENCY_NAME'', ''agency_name''),
      (''DEPARTMENT_NBR'', ''department_nbr''),
      (''DEPARTMENT_NAME'', ''department_name''),
      (''BRANCH_CODE'', ''branch_code''),
      (''BRANCH_NAME'', ''branch_name''),
      (''JOB_CODE'', ''job_code''),
      (''JOB_TITLE'', ''job_title''),
      (''LOCATION_NBR'', ''location_nbr''),
      (''LOCATION_NAME'', ''location_name''),
      (''LOCATION_COUNTY_NAME'', ''location_county_name''),
      (''REG_TEMP_CODE'', ''reg_temp_code''),
      (''REG_TEMP_DESC'', ''reg_temp_desc''),
      (''CLASSIFIED_CODE'', ''classified_code''),
      (''CLASSIFIED_DESC'', ''classified_desc''),
      (''FULL_PART_TIME_CODE'', ''full_part_time_code''),
      (''FULL_PART_TIME_DESC'', ''full_part_time_desc''),
      (''SALARY_PLAN_GRID'', ''salary_plan_grid''),
      (''SALARY_GRADE_RANGE'', ''salary_grade_range''),
      (''MAX_SALARY_STEP'', ''max_salary_step''),
      (''COMPENSATION_RATE'', ''compensation_rate''),
      (''COMP_FREQUENCY_CODE'', ''comp_frequency_code''),
      (''COMP_FREQUENCY_DESC'', ''comp_frequency_desc''),
      (''POSITION_FTE'', ''position_fte''),
      (''BARGAINING_UNIT_NBR'', ''bargaining_unit_nbr''),
      (''BARGAINING_UNIT_NAME'', ''bargaining_unit_name''),
      (''REGULAR_WAGES'', ''regular_wages''),
      (''OVERTIME_WAGES'', ''overtime_wages''),
      (''OTHER_WAGES'', ''other_wages''),
      (''TOTAL_WAGES'', ''total_wages'')]"

definition schema_cols :: "string list" where
  "schema_cols =
     [''temporary_id'', ''record_nbr'', ''employee_name'', ''agency_nbr'', ''agency_name'',
      ''department_nbr'', ''department_name'', ''branch_code'', ''branch_name'',
      ''job_code'', ''job_title'', ''location_nbr'', ''location_name'', ''location_county_name'',
      ''reg_temp_code'', ''reg_temp_desc'', ''classified_code'', ''classified_desc'',
      ''original_hire_date'', ''last_hire_date'', ''job_entry_date'',
      ''full_part_time_code'', ''full_part_time_desc'', ''active_on_june_30'',
      ''salary_plan_grid'', ''salary_grade_range'', ''max_salary_step'',
      ''compensation_rate'', ''comp_frequency_code'', ''comp_frequency_desc'',
      ''position_fte'', ''bargaining_unit_nbr'', ''bargaining_unit_name'',
      ''regular_wages'', ''overtime_wages'', ''other_wages'', ''total_wages'',
      ''fiscal_year'']"

definition int_cols :: "string list" where
  "int_cols = [''record_nbr'', ''original_hire_date'', ''job_entry_date'', ''salary_grade_range'',
               ''max_salary_step'', ''bargaining_unit_nbr'']"

text \<open>
  Lines 126 to 130: the first label that contains \<open>ACTIVE_ON_JUNE_30\<close> once in capitals, if
  there is one, is added to the renaming, and the columns are renamed.
\<close>

definition with_active_col :: "string list \<Rightarrow> (string \<times> string) list" where
  "with_active_col cols =
     (case List.find (\<lambda>c. contains ''ACTIVE_ON_JUNE_30'' (upper c)) cols of
        None \<Rightarrow> column_map
      | Some active_col \<Rightarrow>
          if active_col \<noteq> [] then AList.update active_col ''active_on_june_30'' column_map
          else column_map)"

definition then_do :: "fy_abort + frame \<Rightarrow> (frame \<Rightarrow> fy_abort + frame) \<Rightarrow> fy_abort + frame" where
  "then_do r f = (case r of Inl e \<Rightarrow> Inl e | Inr df \<Rightarrow> f df)"

text \<open>Lines 56 to 159, on the joined frame; one line of the definition for each step.\<close>

definition fy2025_columns :: "pandas \<Rightarrow> frame \<Rightarrow> fy_abort + frame" where
  "fy2025_columns pd df0 =
     then_do (apply_col (apply_to_int_safe pd) ''ORIGINAL_HIRE_DATE'' ''original_hire_date'' df0) (\<lambda>df1.
     then_do (apply_col (apply_to_int_safe pd) ''JOB_ENTRY_DATE'' ''job_entry_date'' df1) (\<lambda>df2.
     then_do (Inr (drop_cols [''ORIGINAL_HIRE_DATE'', ''JOB_ENTRY_DATE''] df2)) (\<lambda>df3.
     then_do (apply_present (to_numeric_fillna pd)
                [''REGULAR_WAGES'', ''OVERTIME_WAGES'', ''OTHER_WAGES'', ''TOTAL_WAGES''] df3) (\<lambda>df4.
     then_do (apply_col (apply_last_hire_safe pd) ''LAST_HIRE_DATE'' ''last_hire_date'' df4) (\<lambda>df5.
     then_do (Inr (drop_cols [''LAST_HIRE_DATE''] df5)) (\<lambda>df6.
     then_do (Inr (rename_cols (with_active_col (fcols df6)) df6)) (\<lambda>df7.
     then_do (apply_present (to_numeric_Int64 pd) [''record_nbr''] df7) (\<lambda>df8.
     then_do (Inr (select_cols schema_cols df8)) (\<lambda>df9.
     then_do (Inr (replace_nan df9)) (\<lambda>df10.
     apply_present (apply_int pd) int_cols df10))))))))))"

subsection \<open>The records and the upserts, lines 161 to 193\<close>

text \<open>
  Lines 171 to 180, for one entry of a record: a float that is not a number becomes
  \<open>None\<close>; a value of an integer column that is not \<open>None\<close> becomes \<open>int(float(v))\<close>, or
  \<open>None\<close> when that raises \<open>TypeError\<close> or \<open>ValueError\<close>; any other error leaves the loop.
\<close>

definition float_of_cell :: "cell \<Rightarrow> py_error + pyfloat" where
  "float_of_cell v =
     (case v of
        CNone \<Rightarrow> Inl TypeError
      | CBool b \<Rightarrow> Inr (Fin (if b then 1 else 0))
      | CInt i \<Rightarrow> float_of_int i
      | CFloat f \<Rightarrow> Inr f
      | CStr s \<Rightarrow> float_of_str s
      | COther \<Rightarrow> Inl TypeError)"

definition fix_value :: "string \<Rightarrow> cell \<Rightarrow> py_error + cell" where
  "fix_value k v =
     (if v = CFloat NaN then Inr CNone
      else if k \<in> set int_cols \<and> v \<noteq> CNone
      then except_value_type
             (bind_err (float_of_cell v) (\<lambda>f. bind_err (int_of_float f) (\<lambda>i. Inr (CInt i))))
             CNone
      else Inr v)"

fun fix_record :: "frame_row \<Rightarrow> py_error + frame_row" where
  "fix_record [] = Inr []"
| "fix_record ((k, v) # rest) =
     (case fix_value k v of
        Inl e \<Rightarrow> Inl e
      | Inr v' \<Rightarrow> (case fix_record rest of Inl e \<Rightarrow> Inl e | Inr rest' \<Rightarrow> Inr ((k, v') # rest')))"

fun fix_records :: "frame_row list \<Rightarrow> py_error + frame_row list" where
  "fix_records [] = Inr []"
| "fix_records (r # rs) =
     (case fix_record r of
        Inl e \<Rightarrow> Inl e
      | Inr r' \<Rightarrow> (case fix_records rs of Inl e \<Rightarrow> Inl e | Inr rs' \<Rightarrow> Inr (r' # rs')))"

text \<open>
  The loop of lines 186 to 193: an upsert per batch, with no handler; the first upsert
  that raises ends the run. The result says whether the loop completed.
\<close>

fun fy2025_batches :: "'r store \<Rightarrow> 'r list list \<Rightarrow> 'r call list \<Rightarrow> bool \<times> 'r call list" where
  "fy2025_batches store [] calls = (True, calls)"
| "fy2025_batches store (batch # rest) calls =
     (case store calls (Upsert batch) of
        Returned n \<Rightarrow> fy2025_batches store rest (calls @ [Upsert batch])
      | Raised \<Rightarrow> (False, calls @ [Upsert batch]))"

definition fy2025_load :: "nat \<Rightarrow> 'r store \<Rightarrow> 'r list \<Rightarrow> bool \<times> 'r call list" where
  "fy2025_load B store records = fy2025_batches store (slices B records) []"

text \<open>
  \<open>main\<close> of the FY2025 script, from the sheets of the workbook on, with the batch size
  (the constant 1000) as the parameter \<open>B\<close>. The client of the store is missing when its
  address or its key is not set. The result is how the run ended, nothing standing for
  its last line, and the calls made to the store.
\<close>

definition fy2025_main ::
  "pandas \<Rightarrow> nat \<Rightarrow> frame_row store option \<Rightarrow> (string \<times> frame) list
     \<Rightarrow> fy_abort option \<times> frame_row call list" where
  "fy2025_main pd B client xl =
     (case (fy2025_find_sheet (map fst xl) ''HR INFO'', fy2025_find_sheet (map fst xl) ''EARNINGS'') of
        (Some hr_sheet, Some earn_sheet) \<Rightarrow>
          (case (map_of xl hr_sheet, map_of xl earn_sheet) of
             (Some hr, Some earnings) \<Rightarrow>
               (case then_do (fy2025_join pd hr earnings) (fy2025_columns pd) of
                  Inl e \<Rightarrow> (Some e, [])
                | Inr df \<Rightarrow>
                    (case client of
                       None \<Rightarrow> (Some NoClient, [])
                     | Some store \<Rightarrow>
                         (case fix_records (to_dict df) of
                            Inl e \<Rightarrow> (Some (LoopRaised e), [])
                          | Inr records \<Rightarrow>
                              (case fy2025_load B store records of
                                 (True, calls) \<Rightarrow> (None, calls)
                               | (False, calls) \<Rightarrow> (Some UpsertRaised, calls)))))
           | _ \<Rightarrow> (Some NoSheets, []))
      | _ \<Rightarrow> (Some NoSheets, []))"

section \<open>Properties of the schema resolver\<close>

lemma find_split:
  "List.find P xs = Some x \<longleftrightarrow>
     (\<exists>pre post. xs = pre @ x # post \<and> P x \<and> (\<forall>m \<in> set pre. \<not> P m))"
proof (induction xs)
  case Nil
  then show ?case by simp
next
  case (Cons y ys)
  show ?case
  proof (cases "P y")
    case True
    have "(\<exists>pre post. y # ys = pre @ x # post \<and> P x \<and> (\<forall>m \<in> set pre. \<not> P m)) \<longleftrightarrow> y = x"
    proof
      assume "\<exists>pre post. y # ys = pre @ x # post \<and> P x \<and> (\<forall>m \<in> set pre. \<not> P m)"
      then obtain pre post where h: "y # ys = pre @ x # post" "\<forall>m \<in> set pre. \<not> P m"
        by blast
      with True show "y = x" by (cases pre) auto
    next
      assume "y = x"
      with True have "y # ys = [] @ x # ys \<and> P x \<and> (\<forall>m \<in> set []. \<not> P m)" by simp
      then show "\<exists>pre post. y # ys = pre @ x # post \<and> P x \<and> (\<forall>m \<in> set pre. \<not> P m)"
        by blast
    qed
    with True show ?thesis by auto
  next
    case False
    have "(\<exists>pre post. y # ys = pre @ x # post \<and> P x \<and> (\<forall>m \<in> set pre. \<not> P m)) \<longleftrightarrow>
          (\<exists>pre post. ys = pre @ x # post \<and> P x \<and> (\<forall>m \<in> set pre. \<not> P m))"
      (is "?L \<longleftrightarrow> ?R")
    proof
      assume ?L
      then obtain pre post where h: "y # ys = pre @ x # post" "P x" "\<forall>m \<in> set pre. \<not> P m"
        by blast
      show ?R
      proof (cases pre)
        case Nil
        with h False show ?thesis by simp
      next
        case (Cons z zs)
        with h have "ys = zs @ x # post" "\<forall>m \<in> set zs. \<not> P m" by auto
        with h(2) show ?thesis by blast
      qed
    next
      assume ?R
      then obtain pre post where h: "ys = pre @ x # post" "P x" "\<forall>m \<in> set pre. \<not> P m"
        by blast
      with False have "y # ys = (y # pre) @ x # post" "\<forall>m \<in> set (y # pre). \<not> P m"
        by auto
      with h(2) show ?L by blast
    qed
    with False Cons.IH show ?thesis by simp
  qed
qed

lemma find_sheet_by_pattern_find:
  "find_sheet_by_pattern names p = List.find (\<lambda>n. contains (lower p) (lower n)) names"
  by (induction names) auto

lemma contains_iff: "contains p s \<longleftrightarrow> (\<exists>a b. s = a @ p @ b)"
proof (induction s)
  case Nil
  then show ?case by auto
next
  case (Cons c cs)
  show ?case
  proof
    assume "contains p (c # cs)"
    then consider "prefix p (c # cs)" | "contains p cs" by auto
    then show "\<exists>a b. c # cs = a @ p @ b"
    proof cases
      case 1
      then obtain b where "c # cs = p @ b" by (auto simp: prefix_def)
      then have "c # cs = [] @ p @ b" by simp
      then show ?thesis by blast
    next
      case 2
      with Cons.IH obtain a b where "cs = a @ p @ b" by blast
      then have "c # cs = (c # a) @ p @ b" by simp
      then show ?thesis by blast
    qed
  next
    assume "\<exists>a b. c # cs = a @ p @ b"
    then obtain a b where ab: "c # cs = a @ p @ b" by blast
    show "contains p (c # cs)"
    proof (cases a)
      case Nil
      with ab have "prefix p (c # cs)" by (simp add: prefix_def)
      then show ?thesis by simp
    next
      case (Cons x a')
      with ab have "cs = a' @ p @ b" by simp
      with Cons.IH have "contains p cs" by blast
      then show ?thesis by simp
    qed
  qed
qed

text \<open>
  C5, as the code has it. \<open>find_sheet_by_pattern\<close> returns the first sheet name that contains
  the pattern without regard to letter case, and nothing exactly when no sheet name does.
  The lookup written out in the FY2025 script returns the first sheet name that contains
  the pattern in the same letter case, and nothing exactly when no sheet name does.
\<close>

theorem schema_resolver_first_match:
  "(find_sheet_by_pattern names p = None \<longleftrightarrow>
      (\<forall>n \<in> set names. \<not> (\<exists>a b. lower n = a @ lower p @ b)))
   \<and> (find_sheet_by_pattern names p = Some n \<longleftrightarrow>
      (\<exists>pre post. names = pre @ n # post \<and> (\<exists>a b. lower n = a @ lower p @ b)
         \<and> (\<forall>m \<in> set pre. \<not> (\<exists>a b. lower m = a @ lower p @ b))))
   \<and> (fy2025_find_sheet names p = None \<longleftrightarrow> (\<forall>n \<in> set names. \<not> (\<exists>a b. n = a @ p @ b)))
   \<and> (fy2025_find_sheet names p = Some n \<longleftrightarrow>
      (\<exists>pre post. names = pre @ n # post \<and> (\<exists>a b. n = a @ p @ b)
         \<and> (\<forall>m \<in> set pre. \<not> (\<exists>a b. m = a @ p @ b))))"
  by (simp add: find_sheet_by_pattern_find fy2025_find_sheet_def find_None_iff find_split
        contains_iff Ball_def)

text \<open>The resolver at three sheet names, the second of which is the first match.\<close>

theorem schema_resolver_first_match_witness:
  "find_sheet_by_pattern [''Notes'', ''FY20 HR Info'', ''HR INFO''] ''hr info'' = Some ''FY20 HR Info''
   \<and> (\<exists>pre post. [''Notes'', ''FY20 HR Info'', ''HR INFO''] = pre @ ''FY20 HR Info'' # post
         \<and> (\<exists>a b. lower ''FY20 HR Info'' = a @ lower ''hr info'' @ b)
         \<and> (\<forall>m \<in> set pre. \<not> (\<exists>a b. lower m = a @ lower ''hr info'' @ b)))"
proof -
  have e: "find_sheet_by_pattern [''Notes'', ''FY20 HR Info'', ''HR INFO''] ''hr info'' = Some ''FY20 HR Info''"
    by code_simp
  with schema_resolver_first_match [of "[''Notes'', ''FY20 HR Info'', ''HR INFO'']" "''hr info''" "''FY20 HR Info''"]
  show ?thesis by blast
qed

text \<open>
  C5 as stated fails on the FY2025 script: the only sheet name contains the pattern when
  letter case is disregarded, and the script's lookup finds nothing.
\<close>

theorem schema_resolver_counterexample:
  "(\<exists>a b. lower ''FY25 hr info'' = a @ lower ''HR INFO'' @ b)
   \<and> fy2025_find_sheet [''FY25 hr info''] ''HR INFO'' = None"
proof -
  have "contains (lower ''HR INFO'') (lower ''FY25 hr info'')" by code_simp
  then have "\<exists>a b. lower ''FY25 hr info'' = a @ lower ''HR INFO'' @ b" by (simp add: contains_iff)
  moreover have "fy2025_find_sheet [''FY25 hr info''] ''HR INFO'' = None" by code_simp
  ultimately show ?thesis by blast
qed

section \<open>Properties of the field normalizers\<close>

lemma strip_id: "s \<noteq> [] \<Longrightarrow> \<not> is_space (hd s) \<Longrightarrow> \<not> is_space (last s) \<Longrightarrow> strip s = s"
proof -
  assume ne: "s \<noteq> []" and h: "\<not> is_space (hd s)" and l: "\<not> is_space (last s)"
  from ne h have "dropWhile is_space s = s" by (cases s) auto
  moreover from ne l have "dropWhile is_space (rev s) = rev s"
    by (cases "rev s") (auto simp: hd_rev [symmetric])
  ultimately show ?thesis by (simp add: strip_def)
qed

lemma is_space_code: "is_space c \<Longrightarrow> (of_char c :: int) \<in> {9, 10, 11, 12, 13, 28, 29, 30, 31, 32, 133, 160}"
  unfolding is_space_def by auto

lemma digit_not_space: "is_digit c \<Longrightarrow> \<not> is_space c"
  using is_space_code [of c] by (auto simp: is_digit_def)

lemma is_digit_digit_char: "0 \<le> d \<Longrightarrow> d < 10 \<Longrightarrow> is_digit (digit_char d)"
  by (simp add: is_digit_def digit_char_def)

lemma str_digits_digits: "0 \<le> n \<Longrightarrow> c \<in> set (str_digits n) \<Longrightarrow> is_digit c"
proof (induction n rule: str_digits.induct)
  case (1 n)
  show ?case
  proof (cases "n < 10")
    case True
    with "1.prems" show ?thesis by (simp add: str_digits.simps [of n] is_digit_digit_char)
  next
    case False
    with "1.prems" have "c \<in> set (str_digits (n div 10)) \<or> c = digit_char (n mod 10)"
      by (auto simp add: str_digits.simps [of n])
    then show ?thesis
    proof
      assume "c \<in> set (str_digits (n div 10))"
      with "1.IH" False "1.prems" show ?thesis by simp
    next
      assume "c = digit_char (n mod 10)"
      then show ?thesis by (simp add: is_digit_digit_char)
    qed
  qed
qed

lemma str_digits_nonempty: "str_digits n \<noteq> []"
  by (simp add: str_digits.simps [of n])

lemma strip_str_digits: "0 \<le> n \<Longrightarrow> strip (str_digits n) = str_digits n"
  by (rule strip_id) (auto simp: str_digits_nonempty intro!: digit_not_space str_digits_digits [of n])

lemma strip_str_int: "strip (str_int i) = str_int i"
proof (cases "i < 0")
  case True
  have "\<not> is_space (last (str_digits (- i)))"
    using True by (intro digit_not_space str_digits_digits [of "- i"]) (auto simp: str_digits_nonempty)
  moreover have "\<not> is_space CHR ''-''" by (simp add: is_space_def)
  ultimately show ?thesis using True
    by (intro strip_id) (auto simp: str_int_def str_digits_nonempty)
next
  case False
  then show ?thesis by (simp add: str_int_def strip_str_digits)
qed

text \<open>
  C9. On an integer or a float, \<open>parse_text\<close> returns nothing when the number is zero and
  the text of the number otherwise: \<open>str_int\<close> for an integer, and for a float what the
  runtime's \<open>str\<close> gives (it has no surrounding whitespace, so stripping keeps it). A
  boolean, which the runtime counts among the integers, gives \<open>True\<close> or nothing. The
  number \<open>0\<close> gives nothing, not the text \<open>0\<close>.
\<close>

theorem parse_text_numeric:
  "parse_text frepr (CInt i) = (if i = 0 then None else Some (str_int i))
   \<and> parse_text frepr (CBool b) = (if b then Some ''True'' else None)
   \<and> parse_text frepr (CFloat f) = (if f = Fin 0 then None else Some (strip (frepr f)))
   \<and> (strip (frepr f) = frepr f \<longrightarrow>
        parse_text frepr (CFloat f) = (if f = Fin 0 then None else Some (frepr f)))
   \<and> parse_text frepr (CInt 0) = None
   \<and> parse_text frepr (CFloat (Fin 0)) = None"
proof -
  have "strip ''True'' = ''True''" by code_simp
  then show ?thesis
    by (simp add: parse_text_def strip_str_int str_bool_def float_is_zero_def)
qed

text \<open>The normalizer at the float \<open>1.5\<close> and at the integers \<open>7\<close> and \<open>0\<close>.\<close>

theorem parse_text_numeric_witness:
  "strip ((\<lambda>_. ''1.5'') (Fin (3 / 2))) = (\<lambda>_. ''1.5'') (Fin (3 / 2))
   \<and> parse_text (\<lambda>_. ''1.5'') (CFloat (Fin (3 / 2))) = Some ''1.5''
   \<and> parse_text (\<lambda>_. ''1.5'') (CInt 7) = Some ''7''
   \<and> parse_text (\<lambda>_. ''1.5'') (CInt 0) = None"
proof -
  have s: "strip ''1.5'' = ''1.5''" by code_simp
  have i: "str_int 7 = ''7''" by code_simp
  have n: "Fin (3 / 2) \<noteq> Fin 0" by simp
  from parse_text_numeric [of "\<lambda>_. ''1.5''" 7 True "Fin (3 / 2)"] s i n
  have "parse_text (\<lambda>_. ''1.5'') (CFloat (Fin (3 / 2))) = Some ''1.5''
        \<and> parse_text (\<lambda>_. ''1.5'') (CInt 7) = Some ''7''
        \<and> parse_text (\<lambda>_. ''1.5'') (CInt 0) = None" by simp
  with s show ?thesis by simp
qed

section \<open>Properties of the batch loaders\<close>

lemma slice_start_in_range:
  fixes N B k :: nat
  assumes "0 < B" "k < (N + B - 1) div B"
  shows "k * B < N"
proof -
  from assms(2) have "Suc k * B \<le> ((N + B - 1) div B) * B"
    by (intro mult_le_mono1) simp
  also have "\<dots> \<le> N + B - 1" by simp
  finally have "k * B + B \<le> N + B - 1" by simp
  with assms(1) show ?thesis by linarith
qed

lemma slices_cover:
  fixes N B :: nat
  assumes "0 < B"
  shows "N \<le> ((N + B - 1) div B) * B"
proof -
  have "N + B - 1 = ((N + B - 1) div B) * B + (N + B - 1) mod B" by simp
  moreover have "(N + B - 1) mod B < B" using assms by simp
  ultimately show ?thesis by linarith
qed

lemma ceil_div_nat:
  fixes N B :: nat
  assumes "0 < B"
  shows "\<lceil>(of_nat N :: rat) / of_nat B\<rceil> = int ((N + B - 1) div B)"
proof (rule ceiling_unique)
  define m where "m = (N + B - 1) div B"
  have Bpos: "(0::rat) < of_nat B" using assms by simp
  have "N \<le> m * B" unfolding m_def by (rule slices_cover [OF assms])
  then have "(of_nat N :: rat) \<le> of_nat (m * B)" by (simp only: of_nat_le_iff)
  then have "(of_nat N :: rat) \<le> of_nat m * of_nat B" by simp
  with Bpos have "(of_nat N :: rat) / of_nat B \<le> of_nat m" by (simp add: pos_divide_le_eq)
  then show "(of_nat N :: rat) / of_nat B \<le> of_int (int ((N + B - 1) div B))"
    by (simp add: m_def)
  show "of_int (int ((N + B - 1) div B)) - 1 < (of_nat N :: rat) / of_nat B"
  proof (cases m)
    case 0
    have "(0::rat) \<le> of_nat N / of_nat B" by simp
    then have "- 1 < (of_nat N :: rat) / of_nat B" by linarith
    with 0 show ?thesis by (simp add: m_def)
  next
    case (Suc k)
    then have "k < (N + B - 1) div B" by (simp add: m_def)
    from slice_start_in_range [OF assms this] have "k * B < N" .
    then have "(of_nat (k * B) :: rat) < of_nat N" by (simp only: of_nat_less_iff)
    then have "(of_nat k :: rat) * of_nat B < of_nat N" by simp
    with Bpos have "(of_nat k :: rat) < of_nat N / of_nat B" by (simp add: pos_less_divide_eq)
    with Suc show ?thesis by (simp add: m_def)
  qed
qed

lemma ceil_div_step:
  fixes i n B :: nat
  assumes "0 < B" "i < n"
  shows "(n - i + B - 1) div B = Suc ((n - (i + B) + B - 1) div B)"
proof -
  from assms have "n - i + B - 1 = (n - i - 1) + B" by simp
  then have L: "(n - i + B - 1) div B = Suc ((n - i - 1) div B)"
    using assms(1) by (simp only: div_add_self2)
  show ?thesis
  proof (cases "i + B \<le> n")
    case True
    then have "n - (i + B) + B - 1 = n - i - 1" by simp
    with L show ?thesis by simp
  next
    case False
    with assms have "(n - (i + B) + B - 1) div B = 0" "(n - i - 1) div B = 0" by auto
    with L show ?thesis by simp
  qed
qed

lemma py_range_closed:
  "0 < B \<Longrightarrow> py_range i n B = map (\<lambda>k. i + k * B) [0..<(n - i + B - 1) div B]"
proof (induction i n B rule: py_range.induct)
  case (1 i n step)
  show ?case
  proof (cases "i < n")
    case True
    define m where "m = (n - (i + step) + step - 1) div step"
    from True 1 have IH: "py_range (i + step) n step = map (\<lambda>k. i + step + k * step) [0..<m]"
      by (simp add: m_def)
    have "map (\<lambda>k. i + k * step) [0..<Suc m] = i # map (\<lambda>k. i + step + k * step) [0..<m]"
      by (simp only: map_upt_Suc) simp
    moreover have "(n - i + step - 1) div step = Suc m"
      unfolding m_def by (rule ceil_div_step [OF "1.prems" True])
    moreover from True "1.prems" have "py_range i n step = i # py_range (i + step) n step"
      by (simp add: py_range.simps [of i n step])
    ultimately show ?thesis using IH by (simp only:)
  next
    case False
    with "1.prems" have "(n - i + step - 1) div step = 0" by simp
    with False show ?thesis by (simp add: py_range.simps [of i n step])
  qed
qed

lemma slices_closed:
  "0 < B \<Longrightarrow> slices B xs = map (\<lambda>k. take B (drop (k * B) xs)) [0..<(length xs + B - 1) div B]"
  by (simp add: slices_def py_range_closed o_def)

lemma concat_slices_upto:
  "0 < B \<Longrightarrow> concat (map (\<lambda>k. take B (drop (k * B) xs)) [0..<m]) = take (m * B) xs"
proof (induction m)
  case 0
  then show ?case by simp
next
  case (Suc m)
  have "take (m * B) xs @ take B (drop (m * B) xs) = take (m * B + B) xs"
    by (simp add: take_add)
  with Suc show ?case by (simp add: add.commute)
qed

lemma concat_slices: "0 < B \<Longrightarrow> concat (slices B xs) = xs"
proof -
  assume B: "0 < B"
  have "length xs \<le> ((length xs + B - 1) div B) * B"
  proof -
    have "length xs + B - 1 = ((length xs + B - 1) div B) * B + (length xs + B - 1) mod B" by simp
    moreover have "(length xs + B - 1) mod B < B" using B by simp
    ultimately show ?thesis by linarith
  qed
  with B show ?thesis by (simp add: slices_closed concat_slices_upto)
qed

lemma length_slices: "0 < B \<Longrightarrow> length (slices B xs) = (length xs + B - 1) div B"
  by (simp add: slices_closed)

lemma nth_slices:
  "0 < B \<Longrightarrow> k < length (slices B xs) \<Longrightarrow> slices B xs ! k = take B (drop (k * B) xs)"
  by (simp add: slices_closed)

lemma payroll_fold_calls:
  "snd (fold (payroll_step store) bs st) = snd st @ map Insert bs"
proof (induction bs arbitrary: st)
  case Nil
  then show ?case by simp
next
  case (Cons b bs)
  obtain t k calls where st: "st = ((t, k), calls)" by (metis surj_pair)
  have "snd (payroll_step store b st) = snd st @ [Insert b]"
    by (simp add: payroll_step_def st Let_def split: outcome.splits)
  with Cons.IH [of "payroll_step store b st"] show ?case by simp
qed

lemma payroll_load_calls: "snd (payroll_load B store records) = map Insert (slices B records)"
  by (simp add: payroll_load_def payroll_fold_calls)

lemma fy2025_batches_complete:
  "fst (fy2025_batches store bs calls) \<longleftrightarrow>
     (\<forall>j < length bs. store (calls @ map Upsert (take j bs)) (Upsert (bs ! j)) \<noteq> Raised)"
proof (induction bs arbitrary: calls)
  case Nil
  then show ?case by simp
next
  case (Cons b bs)
  show ?case
  proof (cases "store calls (Upsert b)")
    case (Returned n)
    with Cons.IH [of "calls @ [Upsert b]"] show ?thesis by (simp add: All_less_Suc2)
  next
    case Raised
    then show ?thesis by (auto simp: All_less_Suc2)
  qed
qed

lemma fy2025_batches_calls:
  "fst (fy2025_batches store bs calls) \<Longrightarrow>
     snd (fy2025_batches store bs calls) = calls @ map Upsert bs"
  by (induction bs arbitrary: calls) (auto split: outcome.splits)

lemma fy2025_batches_stop:
  "\<not> fst (fy2025_batches store bs calls) \<Longrightarrow>
     \<exists>k < length bs. store (calls @ map Upsert (take k bs)) (Upsert (bs ! k)) = Raised
        \<and> (\<forall>j < k. store (calls @ map Upsert (take j bs)) (Upsert (bs ! j)) \<noteq> Raised)
        \<and> snd (fy2025_batches store bs calls) = calls @ map Upsert (take (Suc k) bs)"
proof (induction bs arbitrary: calls)
  case Nil
  then show ?case by simp
next
  case (Cons b bs)
  show ?case
  proof (cases "store calls (Upsert b)")
    case (Returned n)
    with Cons.prems have "\<not> fst (fy2025_batches store bs (calls @ [Upsert b]))" by simp
    from Cons.IH [OF this] obtain k where k: "k < length bs"
      "store ((calls @ [Upsert b]) @ map Upsert (take k bs)) (Upsert (bs ! k)) = Raised"
      "\<forall>j < k. store ((calls @ [Upsert b]) @ map Upsert (take j bs)) (Upsert (bs ! j)) \<noteq> Raised"
      "snd (fy2025_batches store bs (calls @ [Upsert b]))
         = (calls @ [Upsert b]) @ map Upsert (take (Suc k) bs)"
      by blast
    show ?thesis
    proof (intro exI [of _ "Suc k"] conjI)
      show "Suc k < length (b # bs)" using k(1) by simp
      show "store (calls @ map Upsert (take (Suc k) (b # bs))) (Upsert ((b # bs) ! Suc k)) = Raised"
        using k(2) by simp
      show "\<forall>j < Suc k. store (calls @ map Upsert (take j (b # bs))) (Upsert ((b # bs) ! j)) \<noteq> Raised"
        using k(3) Returned by (simp add: All_less_Suc2)
      show "snd (fy2025_batches store (b # bs) calls)
              = calls @ map Upsert (take (Suc (Suc k)) (b # bs))"
        using k(4) Returned by simp
    qed
  next
    case Raised
    then show ?thesis by (intro exI [of _ 0]) simp
  qed
qed

text \<open>
  C6, as the code has it. For a batch size \<open>B > 0\<close> and \<open>N\<close> records, the loops go through
  \<open>ceil(N / B)\<close> slices; slice \<open>k\<close> is the run of at most \<open>B\<close> records that starts at position
  \<open>k * B\<close>, and it is not empty; the slices put together in order are the records. The loader
  of \<open>import_payroll_file\<close> makes one insert call per slice, in this order, whatever the store
  answers. The loop of the FY2025 script has no handler: it makes one upsert call per
  slice, in this order, exactly when no upsert raises; otherwise its calls are the slices
  up to and including the first one whose upsert raises, and no later slice is attempted.
\<close>

theorem batching_completeness:
  assumes "0 < B"
  shows "int (length (slices B records)) = \<lceil>(of_nat (length records) :: rat) / of_nat B\<rceil>
    \<and> (\<forall>k < length (slices B records).
          slices B records ! k = take B (drop (k * B) records)
          \<and> length (slices B records ! k) \<le> B
          \<and> slices B records ! k \<noteq> [])
    \<and> concat (slices B records) = records
    \<and> snd (payroll_load B store records) = map Insert (slices B records)
    \<and> (fst (fy2025_load B store records) \<longleftrightarrow>
          (\<forall>j < length (slices B records).
              store (map Upsert (take j (slices B records))) (Upsert (slices B records ! j)) \<noteq> Raised))
    \<and> (fst (fy2025_load B store records) \<longrightarrow>
          snd (fy2025_load B store records) = map Upsert (slices B records))
    \<and> (\<not> fst (fy2025_load B store records) \<longrightarrow>
          (\<exists>k < length (slices B records).
              store (map Upsert (take k (slices B records))) (Upsert (slices B records ! k)) = Raised
              \<and> (\<forall>j < k. store (map Upsert (take j (slices B records)))
                              (Upsert (slices B records ! j)) \<noteq> Raised)
              \<and> snd (fy2025_load B store records) = map Upsert (take (Suc k) (slices B records))))"
proof -
  have 1: "int (length (slices B records)) = \<lceil>(of_nat (length records) :: rat) / of_nat B\<rceil>"
    using assms by (simp add: length_slices ceil_div_nat)
  have 2: "\<forall>k < length (slices B records).
          slices B records ! k = take B (drop (k * B) records)
          \<and> length (slices B records ! k) \<le> B
          \<and> slices B records ! k \<noteq> []"
  proof (intro allI impI)
    fix k
    assume k: "k < length (slices B records)"
    then have "k * B < length records"
      using assms slice_start_in_range [of B k "length records"] by (simp add: length_slices)
    with assms k show "slices B records ! k = take B (drop (k * B) records)
          \<and> length (slices B records ! k) \<le> B
          \<and> slices B records ! k \<noteq> []"
      by (simp add: nth_slices)
  qed
  have 3: "concat (slices B records) = records"
    using assms by (rule concat_slices)
  have 4: "snd (payroll_load B store records) = map Insert (slices B records)"
    by (rule payroll_load_calls)
  have 5: "fst (fy2025_load B store records) \<longleftrightarrow>
          (\<forall>j < length (slices B records).
              store (map Upsert (take j (slices B records))) (Upsert (slices B records ! j)) \<noteq> Raised)"
    using fy2025_batches_complete [of store "slices B records" "[]"] by (simp add: fy2025_load_def)
  have 6: "fst (fy2025_load B store records) \<longrightarrow>
          snd (fy2025_load B store records) = map Upsert (slices B records)"
    using fy2025_batches_calls [of store "slices B records" "[]"] by (simp add: fy2025_load_def)
  have 7: "\<not> fst (fy2025_load B store records) \<longrightarrow>
          (\<exists>k < length (slices B records).
              store (map Upsert (take k (slices B records))) (Upsert (slices B records ! k)) = Raised
              \<and> (\<forall>j < k. store (map Upsert (take j (slices B records)))
                              (Upsert (slices B records ! j)) \<noteq> Raised)
              \<and> snd (fy2025_load B store records) = map Upsert (take (Suc k) (slices B records)))"
    using fy2025_batches_stop [of store "slices B records" "[]"] by (simp add: fy2025_load_def)
  from 1 2 3 4 5 6 7 show ?thesis by blast
qed

text \<open>
  Five records in batches of two. With a store whose second call raises,
  \<open>import_payroll_file\<close>'s loader makes its three calls. The FY2025 loop makes its three
  calls with a store that never raises.
\<close>

theorem batching_completeness_witness:
  "(0::nat) < 2
   \<and> slices 2 [1, 2, 3, 4, 5 :: nat] = [[1, 2], [3, 4], [5]]
   \<and> \<lceil>(of_nat (length [1, 2, 3, 4, 5 :: nat]) :: rat) / of_nat 2\<rceil> = 3
   \<and> concat (slices 2 [1, 2, 3, 4, 5 :: nat]) = [1, 2, 3, 4, 5]
   \<and> snd (payroll_load 2 (\<lambda>calls c. if length calls = 1 then Raised else Returned 0) [1, 2, 3, 4, 5 :: nat])
       = [Insert [1, 2], Insert [3, 4], Insert [5]]
   \<and> fst (fy2025_load 2 (\<lambda>calls c. Returned 0) [1, 2, 3, 4, 5 :: nat])
   \<and> snd (fy2025_load 2 (\<lambda>calls c. Returned 0) [1, 2, 3, 4, 5 :: nat])
       = [Upsert [1, 2], Upsert [3, 4], Upsert [5]]
   \<and> \<not> fst (fy2025_load 2 (\<lambda>calls c. if length calls = 1 then Raised else Returned 0)
              [1, 2, 3, 4, 5 :: nat])
   \<and> (\<exists>k < 3. snd (fy2025_load 2 (\<lambda>calls c. if length calls = 1 then Raised else Returned 0)
                       [1, 2, 3, 4, 5 :: nat])
                 = map Upsert (take (Suc k) [[1, 2], [3, 4], [5]]))"
proof -
  have s: "slices 2 [1, 2, 3, 4, 5 :: nat] = [[1, 2], [3, 4], [5]]" by code_simp
  have B: "(0::nat) < 2" by simp
  have n: "\<not> fst (fy2025_load 2 (\<lambda>calls c. if length calls = 1 then Raised else Returned 0)
              [1, 2, 3, 4, 5 :: nat])"
    by code_simp
  note t = batching_completeness [OF B, of "[1, 2, 3, 4, 5 :: nat]"
      "\<lambda>calls c. if length calls = 1 then Raised else Returned 0"]
  from t have a1: "snd (payroll_load 2 (\<lambda>calls c. if length calls = 1 then Raised else Returned 0) [1, 2, 3, 4, 5 :: nat])
       = map Insert (slices 2 [1, 2, 3, 4, 5 :: nat])"
    by blast
  from t have a2: "int (length (slices 2 [1, 2, 3, 4, 5 :: nat]))
       = \<lceil>(of_nat (length [1, 2, 3, 4, 5 :: nat]) :: rat) / of_nat 2\<rceil>"
    by blast
  from t n have "\<exists>k < length (slices 2 [1, 2, 3, 4, 5 :: nat]).
       snd (fy2025_load 2 (\<lambda>calls c. if length calls = 1 then Raised else Returned 0)
              [1, 2, 3, 4, 5 :: nat])
         = map Upsert (take (Suc k) (slices 2 [1, 2, 3, 4, 5 :: nat]))"
    by blast
  then have a3: "\<exists>k < 3. snd (fy2025_load 2 (\<lambda>calls c. if length calls = 1 then Raised else Returned 0)
                       [1, 2, 3, 4, 5 :: nat])
                 = map Upsert (take (Suc k) [[1, 2], [3, 4], [5]])"
    unfolding s by (simp add: numeral_3_eq_3)
  from a1 a2 a3 s
  have a: "snd (payroll_load 2 (\<lambda>calls c. if length calls = 1 then Raised else Returned 0) [1, 2, 3, 4, 5 :: nat])
       = [Insert [1, 2], Insert [3, 4], Insert [5]]
     \<and> \<lceil>(of_nat (length [1, 2, 3, 4, 5 :: nat]) :: rat) / of_nat 2\<rceil> = 3
     \<and> (\<exists>k < 3. snd (fy2025_load 2 (\<lambda>calls c. if length calls = 1 then Raised else Returned 0)
                       [1, 2, 3, 4, 5 :: nat])
                 = map Upsert (take (Suc k) [[1, 2], [3, 4], [5]]))"
    by simp
  from batching_completeness [OF B, of "[1, 2, 3, 4, 5 :: nat]" "\<lambda>calls c. Returned 0"] s
  have b: "fst (fy2025_load 2 (\<lambda>calls c. Returned 0) [1, 2, 3, 4, 5 :: nat])
     \<and> snd (fy2025_load 2 (\<lambda>calls c. Returned 0) [1, 2, 3, 4, 5 :: nat])
       = [Upsert [1, 2], Upsert [3, 4], Upsert [5]]"
    by simp
  from a b s n show ?thesis by simp
qed

text \<open>
  C6 as stated fails on the FY2025 script: with five records, batches of two, and a store
  whose second upsert raises, the loop attempts two batches, not \<open>ceil(5 / 2) = 3\<close>, and the
  fifth record is in no batch.
\<close>

theorem batching_completeness_counterexample:
  "fy2025_load 2 (\<lambda>calls c. if length calls = 1 then Raised else Returned 0) [1, 2, 3, 4, 5 :: nat]
     = (False, [Upsert [1, 2], Upsert [3, 4]])
   \<and> \<lceil>(of_nat (length [1, 2, 3, 4, 5 :: nat]) :: rat) / of_nat 2\<rceil> = 3"
  by code_simp

lemma payroll_fold_counts:
  "fst (fold (payroll_step (\<lambda>_. f)) bs ((t, k), calls)) =
     (t + sum_list (map (\<lambda>b. case f (Insert b) of
                                 Returned n \<Rightarrow> if n \<noteq> 0 then n else length b
                               | Raised \<Rightarrow> 0) bs),
      k + sum_list (map (\<lambda>b. case f (Insert b) of Returned n \<Rightarrow> 0 | Raised \<Rightarrow> length b) bs))"
proof (induction bs arbitrary: t k calls)
  case Nil
  then show ?case by simp
next
  case (Cons b bs)
  show ?case
  proof (cases "f (Insert b)")
    case (Returned n)
    then have "payroll_step (\<lambda>_. f) b ((t, k), calls)
               = ((t + (if n \<noteq> 0 then n else length b), k), calls @ [Insert b])"
      by (simp add: payroll_step_def)
    with Cons.IH [of "t + (if n \<noteq> 0 then n else length b)" k "calls @ [Insert b]"] Returned
    show ?thesis by simp
  next
    case Raised
    then have "payroll_step (\<lambda>_. f) b ((t, k), calls) = ((t, k + length b), calls @ [Insert b])"
      by (simp add: payroll_step_def)
    with Cons.IH [of t "k + length b" "calls @ [Insert b]"] Raised
    show ?thesis by simp
  qed
qed

lemma budget_batches_abort:
  "\<exists>b \<in> set bs. f (Upsert b) = Raised \<and> f (Insert b) = Raised \<Longrightarrow>
     fst (budget_batches (\<lambda>_. f) bs t calls) = None"
proof (induction bs arbitrary: t calls)
  case Nil
  then show ?case by simp
next
  case (Cons b bs)
  show ?case
  proof (cases "f (Upsert b) = Raised \<and> f (Insert b) = Raised")
    case True
    then show ?thesis by simp
  next
    case False
    with Cons.prems have "\<exists>b \<in> set bs. f (Upsert b) = Raised \<and> f (Insert b) = Raised" by auto
    with Cons.IH show ?thesis by (auto split: outcome.splits)
  qed
qed

lemma budget_batches_calls:
  "snd (budget_batches (\<lambda>_. f) bs t calls) =
     calls @ concat (map (\<lambda>b. if f (Upsert b) = Raised then [Upsert b, Insert b] else [Upsert b])
                      (takeWhile (\<lambda>b. \<not> (f (Upsert b) = Raised \<and> f (Insert b) = Raised)) bs
                       @ take 1 (dropWhile (\<lambda>b. \<not> (f (Upsert b) = Raised \<and> f (Insert b) = Raised)) bs)))"
proof (induction bs arbitrary: t calls)
  case Nil
  then show ?case by simp
next
  case (Cons b bs)
  then show ?case by (auto split: outcome.splits)
qed

text \<open>
  C3, as the code has it, for a store whose answer depends on the call alone.
  \<open>import_budget_file\<close>: a batch whose upsert raises gets one plain insert, and when that
  raises too, no later batch is attempted and the result is \<open>(0, skipped)\<close>; the calls
  made are those of the batches up to and including the first one that fails twice.
  \<open>import_payroll_file\<close>: every batch gets one plain insert and nothing else; the batches
  whose insert raises are counted in \<open>skipped\<close>, the others in \<open>total_inserted\<close> (with the
  count the store reports, or the size of the batch when it reports none).
\<close>

theorem loader_failure_handling:
  "((\<exists>b \<in> set (slices B records). f (Upsert b) = Raised \<and> f (Insert b) = Raised) \<longrightarrow>
      fst (import_budget_load B (\<lambda>_. f) records skipped) = (0, skipped))
   \<and> snd (import_budget_load B (\<lambda>_. f) records skipped) =
       concat (map (\<lambda>b. if f (Upsert b) = Raised then [Upsert b, Insert b] else [Upsert b])
                (takeWhile (\<lambda>b. \<not> (f (Upsert b) = Raised \<and> f (Insert b) = Raised)) (slices B records)
                 @ take 1 (dropWhile (\<lambda>b. \<not> (f (Upsert b) = Raised \<and> f (Insert b) = Raised))
                             (slices B records))))
   \<and> snd (payroll_load B (\<lambda>_. f) records) = map Insert (slices B records)
   \<and> fst (payroll_load B (\<lambda>_. f) records) =
       (sum_list (map (\<lambda>b. case f (Insert b) of
                              Returned n \<Rightarrow> if n \<noteq> 0 then n else length b
                            | Raised \<Rightarrow> 0) (slices B records)),
        sum_list (map (\<lambda>b. case f (Insert b) of Returned n \<Rightarrow> 0 | Raised \<Rightarrow> length b)
                    (slices B records)))"
proof -
  have e: "slices B [] = ([] :: 'a list list)"
    by (simp add: slices_def py_range.simps [of 0 0 B])
  have 1: "(\<exists>b \<in> set (slices B records). f (Upsert b) = Raised \<and> f (Insert b) = Raised) \<longrightarrow>
      fst (import_budget_load B (\<lambda>_. f) records skipped) = (0, skipped)"
  proof
    assume h: "\<exists>b \<in> set (slices B records). f (Upsert b) = Raised \<and> f (Insert b) = Raised"
    from budget_batches_abort [OF h, of 0 "[]"]
    show "fst (import_budget_load B (\<lambda>_. f) records skipped) = (0, skipped)"
      by (auto simp: import_budget_load_def split: prod.splits option.splits)
  qed
  have 2: "snd (import_budget_load B (\<lambda>_. f) records skipped) =
       concat (map (\<lambda>b. if f (Upsert b) = Raised then [Upsert b, Insert b] else [Upsert b])
                (takeWhile (\<lambda>b. \<not> (f (Upsert b) = Raised \<and> f (Insert b) = Raised)) (slices B records)
                 @ take 1 (dropWhile (\<lambda>b. \<not> (f (Upsert b) = Raised \<and> f (Insert b) = Raised))
                             (slices B records))))"
  proof (cases "records = []")
    case True
    then show ?thesis by (simp add: import_budget_load_def e)
  next
    case False
    have "snd (import_budget_load B (\<lambda>_. f) records skipped)
          = snd (budget_batches (\<lambda>_. f) (slices B records) 0 [])"
      using False by (auto simp: import_budget_load_def split: prod.splits option.splits)
    then show ?thesis by (simp only: budget_batches_calls append_Nil)
  qed
  have 3: "snd (payroll_load B (\<lambda>_. f) records) = map Insert (slices B records)"
    by (rule payroll_load_calls)
  have 4: "fst (payroll_load B (\<lambda>_. f) records) =
       (sum_list (map (\<lambda>b. case f (Insert b) of
                              Returned n \<Rightarrow> if n \<noteq> 0 then n else length b
                            | Raised \<Rightarrow> 0) (slices B records)),
        sum_list (map (\<lambda>b. case f (Insert b) of Returned n \<Rightarrow> 0 | Raised \<Rightarrow> length b)
                    (slices B records)))"
    using payroll_fold_counts [of f "slices B records" 0 0 "[]"] by (simp add: payroll_load_def)
  from 1 2 3 4 show ?thesis by blast
qed

text \<open>
  Five records in batches of two, with a store that raises on every call for the third
  batch: the budget loader gives \<open>(0, 0)\<close>, the payroll loader \<open>(4, 1)\<close>.
\<close>

theorem loader_failure_handling_witness:
  "(\<exists>b \<in> set (slices 2 [1, 2, 3, 4, 5 :: nat]).
      (\<lambda>c. if c = Upsert [5] \<or> c = Insert [5] then Raised else Returned 2) (Upsert b) = Raised
      \<and> (\<lambda>c. if c = Upsert [5] \<or> c = Insert [5] then Raised else Returned 2) (Insert b) = Raised)
   \<and> fst (import_budget_load 2 (\<lambda>_ c. if c = Upsert [5] \<or> c = Insert [5] then Raised else Returned 2)
            [1, 2, 3, 4, 5 :: nat] 0) = (0, 0)
   \<and> snd (import_budget_load 2 (\<lambda>_ c. if c = Upsert [5] \<or> c = Insert [5] then Raised else Returned 2)
            [1, 2, 3, 4, 5 :: nat] 0) = [Upsert [1, 2], Upsert [3, 4], Upsert [5], Insert [5]]
   \<and> payroll_load 2 (\<lambda>_ c. if c = Upsert [5] \<or> c = Insert [5] then Raised else Returned 2)
            [1, 2, 3, 4, 5 :: nat] = ((4, 1), [Insert [1, 2], Insert [3, 4], Insert [5]])"
proof -
  have s: "slices 2 [1, 2, 3, 4, 5 :: nat] = [[1, 2], [3, 4], [5]]" by code_simp
  from loader_failure_handling [of 2 "[1, 2, 3, 4, 5 :: nat]"
      "\<lambda>c. if c = Upsert [5] \<or> c = Insert [5] then Raised else Returned 2" 0] s
  show ?thesis by (simp add: prod_eq_iff)
qed

text \<open>
  C3 as stated fails on \<open>import_budget_file\<close>: with batches of two, five records and a
  third batch that fails both attempts, the result is \<open>(0, 0)\<close>, not \<open>(4, 1)\<close>.
\<close>

theorem loader_failure_handling_counterexample:
  "fst (import_budget_load 2 (\<lambda>_ c. if c = Upsert [5] \<or> c = Insert [5] then Raised else Returned 2)
          [1, 2, 3, 4, 5 :: nat] 0) = (0, 0)
   \<and> fst (import_budget_load 2 (\<lambda>_ c. if c = Upsert [5] \<or> c = Insert [5] then Raised else Returned 2)
          [1, 2, 3, 4, 5 :: nat] 0) \<noteq> (4, 1)"
  by code_simp

section \<open>Properties of the float grammar\<close>

lemma digitpart_rest_consumes:
  "digitpart_rest acc s = (ds, r) \<Longrightarrow>
     \<exists>pre. s = pre @ r \<and> (\<forall>c \<in> set pre. is_digit c \<or> c = CHR ''_'')"
proof (induction acc s arbitrary: ds r rule: digitpart_rest.induct)
  case (1 acc)
  then show ?case by simp
next
  case (2 acc c)
  then show ?case by (auto split: if_splits)
next
  case (3 acc c d rest)
  show ?case
  proof (cases "is_digit c")
    case True
    with 3 obtain pre where "d # rest = pre @ r" "\<forall>x \<in> set pre. is_digit x \<or> x = CHR ''_''"
      by fastforce
    with True have "c # d # rest = (c # pre) @ r \<and> (\<forall>x \<in> set (c # pre). is_digit x \<or> x = CHR ''_'')"
      by simp
    then show ?thesis by blast
  next
    case False
    show ?thesis
    proof (cases "c = CHR ''_'' \<and> is_digit d")
      case True
      with False 3 obtain pre where "rest = pre @ r" "\<forall>x \<in> set pre. is_digit x \<or> x = CHR ''_''"
        by fastforce
      with True have "c # d # rest = (c # d # pre) @ r
                      \<and> (\<forall>x \<in> set (c # d # pre). is_digit x \<or> x = CHR ''_'')"
        by simp
      then show ?thesis by blast
    next
      case F2: False
      with False "3.prems" have "r = c # d # rest" by auto
      then have "c # d # rest = [] @ r \<and> (\<forall>x \<in> set []. is_digit x \<or> x = CHR ''_'')" by simp
      then show ?thesis by blast
    qed
  qed
qed

lemma digitpart_consumes:
  "digitpart s = Some (ds, r) \<Longrightarrow>
     \<exists>pre. s = pre @ r \<and> (\<forall>c \<in> set pre. is_digit c \<or> c = CHR ''_'')"
proof -
  assume h: "digitpart s = Some (ds, r)"
  then obtain c cs where s: "s = c # cs" "is_digit c" "digitpart_rest [digit_val c] cs = (ds, r)"
    by (auto simp: digitpart_def split: list.splits if_splits)
  from digitpart_rest_consumes [OF s(3)] obtain pre where
    "cs = pre @ r" "\<forall>x \<in> set pre. is_digit x \<or> x = CHR ''_''" by blast
  with s have "s = (c # pre) @ r \<and> (\<forall>x \<in> set (c # pre). is_digit x \<or> x = CHR ''_'')" by simp
  then show ?thesis by blast
qed

lemma comma_not_digit: "\<not> is_digit CHR '',''"
  by (simp add: is_digit_def)

lemma digitpart_no_comma:
  "digitpart s = Some (ds, r) \<Longrightarrow> CHR '','' \<in> set s \<Longrightarrow> CHR '','' \<in> set r"
  using digitpart_consumes [of s ds r] comma_not_digit by auto

lemma number_part_no_comma:
  assumes "number_part s = Some (ip, fp, r)" and c: "CHR '','' \<in> set s"
  shows "CHR '','' \<in> set r"
proof (cases "digitpart s")
  case None
  with assms(1) obtain r2 where s: "s = CHR ''.'' # r2" and d: "digitpart r2 = Some (fp, r)"
    by (auto simp: number_part_def split: list.splits if_splits option.splits)
  from s c have "CHR '','' \<in> set r2" by simp
  with d show ?thesis by (rule digitpart_no_comma)
next
  case (Some t)
  obtain ip' r1 where t: "t = (ip', r1)" by (metis surj_pair)
  with Some c have r1: "CHR '','' \<in> set r1" by (auto dest: digitpart_no_comma)
  show ?thesis
  proof (cases r1)
    case Nil
    with r1 show ?thesis by simp
  next
    case (Cons x r2)
    show ?thesis
    proof (cases "x = CHR ''.''")
      case True
      with r1 Cons have r2: "CHR '','' \<in> set r2" by simp
      show ?thesis
      proof (cases "digitpart r2")
        case None
        with assms(1) Some t Cons True have "r = r2" by (simp add: number_part_def)
        with r2 show ?thesis by simp
      next
        case S2: (Some u)
        obtain fp' r3 where u: "u = (fp', r3)" by (metis surj_pair)
        with assms(1) Some t Cons True S2 have "r = r3" by (simp add: number_part_def)
        moreover from S2 u r2 have "CHR '','' \<in> set r3" by (auto dest: digitpart_no_comma)
        ultimately show ?thesis by simp
      qed
    next
      case False
      with assms(1) Some t Cons have "r = r1" by (simp add: number_part_def)
      with r1 show ?thesis by simp
    qed
  qed
qed

lemma take_sign_no_comma:
  "take_sign s = (neg, body) \<Longrightarrow> CHR '','' \<in> set s \<Longrightarrow> CHR '','' \<in> set body"
  unfolding take_sign_def by (auto split: list.splits if_splits)

lemma exponent_part_no_comma:
  "exponent_part r = Some ex \<Longrightarrow> CHR '','' \<notin> set r"
  unfolding exponent_part_def
  by (auto split: list.splits if_splits prod.splits option.splits
           dest: digitpart_no_comma take_sign_no_comma)

lemma lower_keeps_comma: "CHR '','' \<in> set s \<Longrightarrow> CHR '','' \<in> set (lower s)"
proof -
  have "lower_char CHR '','' = CHR '',''" by (simp add: lower_char_def)
  then show "CHR '','' \<in> set s \<Longrightarrow> CHR '','' \<in> set (lower s)"
    by (force simp: lower_def)
qed

lemma set_strip: "set (strip s) \<supseteq> {c \<in> set s. \<not> is_space c}"
proof -
  have "\<And>t. {c \<in> set t. \<not> is_space c} \<subseteq> set (dropWhile is_space t)"
  proof -
    fix t
    have "set t = set (takeWhile is_space t) \<union> set (dropWhile is_space t)"
      by (metis set_append takeWhile_dropWhile_id)
    moreover have "\<forall>c \<in> set (takeWhile is_space t). is_space c"
      by (auto dest: set_takeWhileD)
    ultimately show "{c \<in> set t. \<not> is_space c} \<subseteq> set (dropWhile is_space t)" by auto
  qed
  from this [of s] this [of "rev (dropWhile is_space s)"] show ?thesis
    by (auto simp: strip_def)
qed

lemma comma_in_strip: "CHR '','' \<in> set s \<Longrightarrow> CHR '','' \<in> set (strip s)"
proof -
  have "\<not> is_space CHR '',''" by (simp add: is_space_def)
  then show "CHR '','' \<in> set s \<Longrightarrow> CHR '','' \<in> set (strip s)" using set_strip [of s] by auto
qed

lemma float_of_str_error: "float_of_str s = Inl e \<Longrightarrow> e = ValueError"
  unfolding float_of_str_def by (auto simp: Let_def split: prod.splits option.splits if_splits)

lemma float_of_str_comma: "CHR '','' \<in> set s \<Longrightarrow> float_of_str s = Inl ValueError"
proof -
  assume c: "CHR '','' \<in> set s"
  obtain neg body where ts: "take_sign (strip s) = (neg, body)" by (metis surj_pair)
  from c have "CHR '','' \<in> set (strip s)" by (rule comma_in_strip)
  with ts have b: "CHR '','' \<in> set body" by (rule take_sign_no_comma)
  then have l: "CHR '','' \<in> set (lower body)" by (rule lower_keeps_comma)
  from l have n1: "lower body \<noteq> ''inf''" "lower body \<noteq> ''infinity''" "lower body \<noteq> ''nan''" by auto
  show ?thesis
  proof (cases "number_part body")
    case None
    with ts n1 show ?thesis by (simp add: float_of_str_def)
  next
    case (Some t)
    obtain ip fp r where t: "t = (ip, fp, r)" by (metis prod_cases3)
    with Some b have "CHR '','' \<in> set r" by (auto dest: number_part_no_comma)
    then have "exponent_part r = None" using exponent_part_no_comma [of r] by (cases "exponent_part r") auto
    with ts n1 Some t show ?thesis by (simp add: float_of_str_def)
  qed
qed

section \<open>Properties of the numeric normalizers\<close>

text \<open>
  C4, as the code has it. The wage fields are \<open>parse_float(...) or 0.0\<close>: nothing, a blank
  text, the dash, a text that \<open>float\<close> does not accept and a cell of another type all give
  \<open>0\<close>; any other text gives the float it denotes. No thousands separator is removed: a
  text with a comma is not accepted by \<open>float\<close> and gives \<open>0\<close>.
\<close>

theorem wage_field_defaults:
  "wage_field CNone = Inr (Fin 0)
   \<and> wage_field COther = Inr (Fin 0)
   \<and> (strip s = [] \<or> strip s = ''-'' \<longrightarrow> wage_field (CStr s) = Inr (Fin 0))
   \<and> (float_of_str (strip s) = Inl ValueError \<longrightarrow> wage_field (CStr s) = Inr (Fin 0))
   \<and> (CHR '','' \<in> set s \<longrightarrow> wage_field (CStr s) = Inr (Fin 0))
   \<and> (strip s \<noteq> [] \<and> strip s \<noteq> ''-'' \<and> float_of_str (strip s) = Inr f \<longrightarrow>
        wage_field (CStr s) = Inr f)
   \<and> wage_field (CStr '''') = Inr (Fin 0)
   \<and> wage_field (CStr ''-'') = Inr (Fin 0)
   \<and> wage_field (CStr '' 1,234.50 '') = Inr (Fin 0)
   \<and> wage_field (CStr '' 1234.50 '') = Inr (Fin (2469 / 2))"
proof -
  have 1: "wage_field CNone = Inr (Fin 0)" "wage_field COther = Inr (Fin 0)"
    by (simp_all add: wage_field_def parse_float_def bind_err_def or_zero_def)
  have 2: "strip s = [] \<or> strip s = ''-'' \<longrightarrow> wage_field (CStr s) = Inr (Fin 0)"
    by (auto simp: wage_field_def parse_float_def bind_err_def or_zero_def)
  have 3: "float_of_str (strip s) = Inl ValueError \<longrightarrow> wage_field (CStr s) = Inr (Fin 0)"
    by (simp add: wage_field_def parse_float_def bind_err_def or_zero_def except_value_type_def
          Let_def)
  have 4: "CHR '','' \<in> set s \<longrightarrow> wage_field (CStr s) = Inr (Fin 0)"
  proof
    assume "CHR '','' \<in> set s"
    then have "CHR '','' \<in> set (strip s)" by (rule comma_in_strip)
    then have "float_of_str (strip s) = Inl ValueError" by (rule float_of_str_comma)
    with 3 show "wage_field (CStr s) = Inr (Fin 0)" by simp
  qed
  have 5: "strip s \<noteq> [] \<and> strip s \<noteq> ''-'' \<and> float_of_str (strip s) = Inr f \<longrightarrow>
        wage_field (CStr s) = Inr f"
    by (auto simp: wage_field_def parse_float_def bind_err_def or_zero_def except_value_type_def
          Let_def float_is_zero_def)
  have 6: "wage_field (CStr '''') = Inr (Fin 0)" by code_simp
  have 7: "wage_field (CStr ''-'') = Inr (Fin 0)" by code_simp
  have 8: "wage_field (CStr '' 1,234.50 '') = Inr (Fin 0)" by code_simp
  have 9: "wage_field (CStr '' 1234.50 '') = Inr (Fin (2469 / 2))" by code_simp
  from 1 2 3 4 5 6 7 8 9 show ?thesis by blast
qed

text \<open>The wage normalizer at a text with a thousands separator.\<close>

theorem wage_field_defaults_witness:
  "CHR '','' \<in> set ''12,5'' \<and> wage_field (CStr ''12,5'') = Inr (Fin 0)
   \<and> strip '' 7 '' \<noteq> [] \<and> strip '' 7 '' \<noteq> ''-'' \<and> float_of_str (strip '' 7 '') = Inr (Fin 7)
   \<and> wage_field (CStr '' 7 '') = Inr (Fin 7)"
proof -
  have c: "CHR '','' \<in> set ''12,5''" by simp
  have s: "strip '' 7 '' = ''7''" by code_simp
  have f: "float_of_str ''7'' = Inr (Fin 7)" by code_simp
  from wage_field_defaults [of "''12,5''" "Fin 7"] c
  have a: "wage_field (CStr ''12,5'') = Inr (Fin 0)" by blast
  from wage_field_defaults [of "'' 7 ''" "Fin 7"] s f
  have b: "wage_field (CStr '' 7 '') = Inr (Fin 7)" by simp
  from a b c s f show ?thesis by simp
qed

text \<open>
  C4 as stated fails: the wage normalizer gives \<open>0\<close>, not \<open>1234.50\<close>, on the text
  \<open>" 1,234.50 "\<close>.
\<close>

theorem wage_field_counterexample:
  "wage_field (CStr '' 1,234.50 '') = Inr (Fin 0)
   \<and> wage_field (CStr '' 1,234.50 '') \<noteq> Inr (Fin (2469 / 2))"
  by code_simp

text \<open>
  C7 fails on the code. \<open>parse_integer\<close> and \<open>parse_last_hire_date\<close> catch \<open>ValueError\<close> and
  \<open>TypeError\<close> only: on the text \<open>inf\<close> and on an infinite float the conversion to an
  integer raises \<open>OverflowError\<close>, which leaves the normalizer; \<open>parse_last_hire_date\<close> has
  no handler at all around a numeric cell, so a float that is not a number raises
  \<open>ValueError\<close>. In \<open>parse_hr_row\<close> the error ends the row: no record is made of it.
\<close>

theorem normalizers_raise:
  "parse_integer (CStr ''inf'') = Inl OverflowError
   \<and> parse_integer (CStr ''-Infinity'') = Inl OverflowError
   \<and> parse_integer (CFloat PInf) = Inl OverflowError
   \<and> parse_last_hire_date (CStr ''inf'') = Inl OverflowError
   \<and> parse_last_hire_date (CFloat PInf) = Inl OverflowError
   \<and> parse_last_hire_date (CFloat NaN) = Inl ValueError
   \<and> parse_hr_row frepr [CStr ''A1'', CStr ''inf''] [CStr ''TEMPORARY_ID'', CStr ''RECORD_NBR''] None
       = None"
proof -
  have 1: "parse_integer (CStr ''inf'') = Inl OverflowError" by code_simp
  have 2: "parse_integer (CStr ''-Infinity'') = Inl OverflowError" by code_simp
  have 3: "parse_integer (CFloat PInf) = Inl OverflowError" by code_simp
  have 4: "parse_last_hire_date (CStr ''inf'') = Inl OverflowError" by code_simp
  have 5: "parse_last_hire_date (CFloat PInf) = Inl OverflowError" by code_simp
  have 6: "parse_last_hire_date (CFloat NaN) = Inl ValueError" by code_simp
  have d: "build_data [CStr ''TEMPORARY_ID'', CStr ''RECORD_NBR''] [CStr ''A1'', CStr ''inf'']
           = [(CStr ''TEMPORARY_ID'', CStr ''A1''), (CStr ''RECORD_NBR'', CStr ''inf'')]"
    by (simp add: build_data_def)
  have s: "strip ''A1'' = ''A1''" by code_simp
  have 7: "parse_hr_row frepr [CStr ''A1'', CStr ''inf''] [CStr ''TEMPORARY_ID'', CStr ''RECORD_NBR''] None
       = None"
    by (simp add: parse_hr_row_def d data_get_def parse_text_def s read_columns_def hr_columns_def
          norm_field_def 1 bind_err_def)
  from 1 2 3 4 5 6 7 show ?thesis by blast
qed

text \<open>
  C10, as the code has it. On an integer, and on a finite float, \<open>parse_last_hire_date\<close>
  returns the decimal text of the value truncated towards zero; so it does on a text that is
  neither blank nor the dash and that \<open>float\<close> reads as a finite number. A text that \<open>float\<close>
  does not accept, and a text that it reads as not-a-number, are returned as they are after
  trimming.
\<close>

theorem parse_last_hire_date_canonical:
  "parse_last_hire_date (CInt i) = Inr (Some (str_int i))
   \<and> parse_last_hire_date (CBool b) = Inr (Some (if b then ''1'' else ''0''))
   \<and> parse_last_hire_date (CFloat (Fin r)) = Inr (Some (str_int (truncate_rat r)))
   \<and> (strip s \<noteq> [] \<and> strip s \<noteq> ''-'' \<and> float_of_str (strip s) = Inr (Fin r) \<longrightarrow>
        parse_last_hire_date (CStr s) = Inr (Some (str_int (truncate_rat r))))
   \<and> (strip s \<noteq> [] \<and> strip s \<noteq> ''-''
        \<and> (float_of_str (strip s) = Inl ValueError \<or> float_of_str (strip s) = Inr NaN) \<longrightarrow>
        parse_last_hire_date (CStr s) = Inr (Some (strip s)))"
proof -
  have z: "str_int 0 = ''0''" "str_int 1 = ''1''" by code_simp+
  have 1: "parse_last_hire_date (CInt i) = Inr (Some (str_int i))"
    by (simp add: parse_last_hire_date_def)
  have 2: "parse_last_hire_date (CBool b) = Inr (Some (if b then ''1'' else ''0''))"
    by (simp add: parse_last_hire_date_def z)
  have 3: "parse_last_hire_date (CFloat (Fin r)) = Inr (Some (str_int (truncate_rat r)))"
    by (simp add: parse_last_hire_date_def int_of_float_def bind_err_def)
  have 4: "strip s \<noteq> [] \<and> strip s \<noteq> ''-'' \<and> float_of_str (strip s) = Inr (Fin r) \<longrightarrow>
        parse_last_hire_date (CStr s) = Inr (Some (str_int (truncate_rat r)))"
    by (simp add: parse_last_hire_date_def int_of_float_def bind_err_def except_value_type_def
          Let_def)
  have 5: "strip s \<noteq> [] \<and> strip s \<noteq> ''-''
        \<and> (float_of_str (strip s) = Inl ValueError \<or> float_of_str (strip s) = Inr NaN) \<longrightarrow>
        parse_last_hire_date (CStr s) = Inr (Some (strip s))"
    by (auto simp: parse_last_hire_date_def int_of_float_def bind_err_def except_value_type_def
          Let_def)
  from 1 2 3 4 5 show ?thesis by blast
qed

text \<open>
  The float \<open>44000.0\<close> gives \<open>44000\<close>, the text \<open>123.9\<close> gives \<open>123\<close>, and a date written
  out is kept.
\<close>

theorem parse_last_hire_date_canonical_witness:
  "parse_last_hire_date (CFloat (Fin 44000)) = Inr (Some ''44000'')
   \<and> strip ''123.9'' \<noteq> [] \<and> strip ''123.9'' \<noteq> ''-''
   \<and> float_of_str (strip ''123.9'') = Inr (Fin (4359343701806285 / 35184372088832))
   \<and> parse_last_hire_date (CStr ''123.9'') = Inr (Some ''123'')
   \<and> float_of_str (strip '' 01/02/2020 '') = Inl ValueError
   \<and> parse_last_hire_date (CStr '' 01/02/2020 '') = Inr (Some ''01/02/2020'')"
proof -
  have t: "str_int (truncate_rat 44000) = ''44000''" by code_simp
  have s1: "strip ''123.9'' = ''123.9''" by code_simp
  have f1: "float_of_str ''123.9'' = Inr (Fin (4359343701806285 / 35184372088832))" by code_simp
  have t1: "str_int (truncate_rat (4359343701806285 / 35184372088832)) = ''123''" by code_simp
  have s2: "strip '' 01/02/2020 '' = ''01/02/2020''" by code_simp
  have f2: "float_of_str ''01/02/2020'' = Inl ValueError" by code_simp
  from parse_last_hire_date_canonical [of 0 True 44000 "''123.9''"] t
  have a: "parse_last_hire_date (CFloat (Fin 44000)) = Inr (Some ''44000'')" by simp
  from parse_last_hire_date_canonical [of 0 True "4359343701806285 / 35184372088832" "''123.9''"]
    s1 f1 t1
  have b: "parse_last_hire_date (CStr ''123.9'') = Inr (Some ''123'')" by simp
  from parse_last_hire_date_canonical [of 0 True 0 "'' 01/02/2020 ''"] s2 f2
  have c: "parse_last_hire_date (CStr '' 01/02/2020 '') = Inr (Some ''01/02/2020'')" by simp
  from a b c s1 f1 s2 f2 show ?thesis by simp
qed

text \<open>
  C10 as stated fails: the text \<open>nan\<close> is read by \<open>float\<close> as a number, and it is returned
  as it is; an infinite float is a numeric input on which nothing is returned.
\<close>

theorem parse_last_hire_date_counterexample:
  "float_of_str ''nan'' = Inr NaN
   \<and> parse_last_hire_date (CStr ''nan'') = Inr (Some ''nan'')
   \<and> parse_last_hire_date (CFloat PInf) = Inl OverflowError"
  by code_simp

section \<open>Properties of the record join\<close>

lemma store_parsed_identifier:
  "store_parsed parsed d =
     (case identifier_of parsed of None \<Rightarrow> d | Some t \<Rightarrow> AList.update t (the parsed) d)"
  by (auto simp: store_parsed_def identifier_of_def split: option.splits val.splits)

lemma map_of_store_parsed:
  "map_of (store_parsed parsed d) t = (if identifier_of parsed = Some t then parsed else map_of d t)"
  by (auto simp: store_parsed_identifier update_conv' identifier_of_def split: option.splits)

lemma map_of_fold_store_parsed:
  "map_of (fold store_parsed ps d) t =
     (case filter (\<lambda>p. identifier_of p = Some t) ps of [] \<Rightarrow> map_of d t | m # ms \<Rightarrow> last (m # ms))"
proof (induction ps arbitrary: d)
  case Nil
  then show ?case by simp
next
  case (Cons p ps)
  show ?case
  proof (cases "filter (\<lambda>p. identifier_of p = Some t) ps")
    case Nil
    with Cons.IH [of "store_parsed p d"] show ?thesis
      by (simp add: map_of_store_parsed)
  next
    case (Cons m ms)
    with Cons.IH [of "store_parsed p d"] show ?thesis by simp
  qed
qed

lemma distinct_fold_store_parsed:
  "distinct (map fst d) \<Longrightarrow> distinct (map fst (fold store_parsed ps d))"
  by (induction ps arbitrary: d)
     (auto simp: store_parsed_identifier distinct_update split: option.splits)

lemma read_earnings_fold:
  "read_earnings frepr hdr rws = fold store_parsed (map (\<lambda>row. parse_earnings_row frepr row hdr) rws) []"
  by (simp add: read_earnings_def fold_map o_def)

lemma read_hr_fold:
  "read_hr frepr hdr a rws = fold store_parsed (map (\<lambda>row. parse_hr_row frepr row hdr a) rws) []"
  by (simp add: read_hr_def fold_map o_def)

lemma collect_keys: "collect xs = Inr fs \<Longrightarrow> map fst fs = map fst xs"
  by (induction xs arbitrary: fs) (auto split: sum.splits)

lemma parse_earnings_row_keys:
  assumes "parse_earnings_row frepr row hdr = Some d"
  shows "map fst d = [''temporary_id'', ''regular_wages'', ''overtime_wages'', ''other_wages'', ''total_wages'']"
proof -
  from assms obtain tid fs where
    d: "d = (''temporary_id'', VStr tid) # fs"
    and c: "collect (read_columns frepr (build_data hdr row) earnings_columns) = Inr fs"
    by (auto simp: parse_earnings_row_def Let_def split: option.splits if_splits sum.splits)
  from collect_keys [OF c] have "map fst fs = [''regular_wages'', ''overtime_wages'', ''other_wages'', ''total_wages'']"
    by (simp add: read_columns_def earnings_columns_def)
  with d show ?thesis by simp
qed

lemma map_of_combine:
  "map_of (combine fy ed (tid, hr)) =
     (map_of hr)(''fiscal_year'' \<mapsto> VStr (str_int fy),
        ''regular_wages'' \<mapsto> get_default (case map_of ed tid of Some r \<Rightarrow> r | None \<Rightarrow> []) ''regular_wages'' (VFloat (Fin 0)),
        ''overtime_wages'' \<mapsto> get_default (case map_of ed tid of Some r \<Rightarrow> r | None \<Rightarrow> []) ''overtime_wages'' (VFloat (Fin 0)),
        ''other_wages'' \<mapsto> get_default (case map_of ed tid of Some r \<Rightarrow> r | None \<Rightarrow> []) ''other_wages'' (VFloat (Fin 0)),
        ''total_wages'' \<mapsto> get_default (case map_of ed tid of Some r \<Rightarrow> r | None \<Rightarrow> []) ''total_wages'' (VFloat (Fin 0)))"
  by (simp add: combine_def dict_update_def update_conv' Let_def)

lemma filter_drop_duplicates_first:
  assumes "\<forall>k a b. match k b \<and> dup a b \<longrightarrow> match k a"
    and "\<forall>k a b. match k a \<and> match k b \<longrightarrow> dup a b"
  shows "filter (\<lambda>e. match k (row_key e)) (drop_duplicates_first dup seen es) =
     (if \<exists>s \<in> set seen. match k s then [] else take 1 (filter (\<lambda>e. match k (row_key e)) es))"
proof (induction es arbitrary: seen)
  case Nil
  then show ?case by simp
next
  case (Cons e es)
  show ?case
  proof (cases "\<exists>s \<in> set seen. dup s (row_key e)")
    case True
    then obtain s where s: "s \<in> set seen" "dup s (row_key e)" by blast
    have "match k (row_key e) \<Longrightarrow> \<exists>s \<in> set seen. match k s"
      using s assms(1) by blast
    with True Cons.IH [of seen] show ?thesis by (auto simp: list_ex_iff)
  next
    case False
    have "match k (row_key e) \<Longrightarrow> \<not> (\<exists>s \<in> set seen. match k s)"
      using False assms(2) by blast
    with False Cons.IH [of "seen @ [row_key e]"] show ?thesis by (auto simp: list_ex_iff)
  qed
qed

lemma find_filter: "List.find P xs = (case filter P xs of [] \<Rightarrow> None | x # ys \<Rightarrow> Some x)"
  by (induction xs) auto

lemma joined_rows_first:
  assumes "\<forall>k a b. match k b \<and> dup a b \<longrightarrow> match k a"
    and "\<forall>k a b. match k a \<and> match k b \<longrightarrow> dup a b"
  shows "joined_rows match hr (earnings\<lparr>frows := drop_duplicates_first dup [] (frows earnings)\<rparr>)
     = map (\<lambda>h. joined_row hr earnings h
                  (List.find (\<lambda>e. match (row_key h) (row_key e)) (frows earnings)))
         (frows hr)"
proof -
  let ?e = "earnings\<lparr>frows := drop_duplicates_first dup [] (frows earnings)\<rparr>"
  have j: "\<And>h m. joined_row hr ?e h m = joined_row hr earnings h m"
    by (simp add: joined_row_def left_label_def right_label_def overlap_def right_cols_def)
  have "\<And>h. (case filter (\<lambda>e. match (row_key h) (row_key e)) (frows ?e) of
                [] \<Rightarrow> [joined_row hr ?e h None]
              | ms \<Rightarrow> map (\<lambda>e. joined_row hr ?e h (Some e)) ms)
          = [joined_row hr earnings h
               (List.find (\<lambda>e. match (row_key h) (row_key e)) (frows earnings))]"
    using filter_drop_duplicates_first [OF assms, of _ "[]" "frows earnings"]
    by (simp add: j find_filter split: list.splits)
  then show ?thesis by (simp add: joined_rows_def)
qed

lemma text_or_number_key_sym: "text_or_number_key a b \<Longrightarrow> text_or_number_key b a"
  by (auto simp: text_or_number_key_def split: option.splits)

lemma text_or_number_key_trans:
  "text_or_number_key a b \<Longrightarrow> text_or_number_key b c \<Longrightarrow> text_or_number_key a c"
  by (auto simp: text_or_number_key_def split: option.splits)

text \<open>
  C1, as the code has it. In \<open>import_payroll_file\<close> the detail lookup keeps, for an
  identifier, the last detail row parsed with it: every combined record of a roster entry
  with that identifier has the four wage fields of that last row. In the FY2025 script the
  detail rows are de-duplicated keeping the first of each key, and it is the first detail
  row that wins: when the library's two comparisons of keys agree (a duplicate of a
  matching key matches, and two keys that match one roster key are duplicates), the rows
  of the join are the roster rows, in order and once each, every one with the cells of the
  first detail row whose key matches its key, or with missing values when there is none.
\<close>

theorem join_detail_choice:
  "(filter (\<lambda>p. identifier_of p = Some tid) (map (\<lambda>row. parse_earnings_row frepr row hdr) rws) \<noteq> [] \<longrightarrow>
      (\<exists>d. last (filter (\<lambda>p. identifier_of p = Some tid)
                     (map (\<lambda>row. parse_earnings_row frepr row hdr) rws)) = Some d
          \<and> map_of (read_earnings frepr hdr rws) tid = Some d
          \<and> (\<forall>i < length hr_data. fst (hr_data ! i) = tid \<longrightarrow>
                (\<forall>k \<in> {''regular_wages'', ''overtime_wages'', ''other_wages'', ''total_wages''}.
                   map_of (join_records fy hr_data (read_earnings frepr hdr rws) ! i) k = map_of d k
                   \<and> map_of d k \<noteq> None))))
   \<and> ((\<forall>k a b. match k b \<and> dup a b \<longrightarrow> match k a) \<and> (\<forall>k a b. match k a \<and> match k b \<longrightarrow> dup a b) \<longrightarrow>
        joined_rows match hr (earnings\<lparr>frows := drop_duplicates_first dup [] (frows earnings)\<rparr>)
          = map (\<lambda>h. joined_row hr earnings h
                       (List.find (\<lambda>e. match (row_key h) (row_key e)) (frows earnings)))
              (frows hr))"
proof -
  define ps where "ps = map (\<lambda>row. parse_earnings_row frepr row hdr) rws"
  define ms where "ms = filter (\<lambda>p. identifier_of p = Some tid) ps"
  define E where "E = read_earnings frepr hdr rws"
  have 1: "ms \<noteq> [] \<longrightarrow>
      (\<exists>d. last ms = Some d \<and> map_of E tid = Some d
          \<and> (\<forall>i < length hr_data. fst (hr_data ! i) = tid \<longrightarrow>
                (\<forall>k \<in> {''regular_wages'', ''overtime_wages'', ''other_wages'', ''total_wages''}.
                   map_of (join_records fy hr_data E ! i) k = map_of d k \<and> map_of d k \<noteq> None)))"
  proof
    assume ne: "ms \<noteq> []"
    then have "last ms \<in> set ms" by simp
    then have l: "identifier_of (last ms) = Some tid" "last ms \<in> set ps" by (auto simp: ms_def)
    then obtain d where d: "last ms = Some d" by (cases "last ms") (auto simp: identifier_of_def)
    from l(2) d obtain row where "parse_earnings_row frepr row hdr = Some d" by (auto simp: ps_def)
    then have keys: "map fst d = [''temporary_id'', ''regular_wages'', ''overtime_wages'', ''other_wages'', ''total_wages'']"
      by (rule parse_earnings_row_keys)
    have E: "map_of E tid = Some d"
      using ne d map_of_fold_store_parsed [of ps "[]" tid]
      by (cases ms) (auto simp: E_def read_earnings_fold ps_def [symmetric] ms_def [symmetric])
    have dk: "\<forall>k \<in> {''regular_wages'', ''overtime_wages'', ''other_wages'', ''total_wages''}. map_of d k \<noteq> None"
      using keys by (auto simp: map_of_eq_None_iff)
    have "\<forall>i < length hr_data. fst (hr_data ! i) = tid \<longrightarrow>
                (\<forall>k \<in> {''regular_wages'', ''overtime_wages'', ''other_wages'', ''total_wages''}.
                   map_of (join_records fy hr_data E ! i) k = map_of d k \<and> map_of d k \<noteq> None)"
    proof (intro allI impI)
      fix i
      assume i: "i < length hr_data" and t: "fst (hr_data ! i) = tid"
      then have "join_records fy hr_data E ! i = combine fy E (tid, snd (hr_data ! i))"
        by (simp add: join_records_def) (metis prod.collapse)
      with E dk show "\<forall>k \<in> {''regular_wages'', ''overtime_wages'', ''other_wages'', ''total_wages''}.
                   map_of (join_records fy hr_data E ! i) k = map_of d k \<and> map_of d k \<noteq> None"
        by (auto simp: map_of_combine get_default_def)
    qed
    with d E show "\<exists>d. last ms = Some d \<and> map_of E tid = Some d
          \<and> (\<forall>i < length hr_data. fst (hr_data ! i) = tid \<longrightarrow>
                (\<forall>k \<in> {''regular_wages'', ''overtime_wages'', ''other_wages'', ''total_wages''}.
                   map_of (join_records fy hr_data E ! i) k = map_of d k \<and> map_of d k \<noteq> None))"
      by blast
  qed
  have 2: "(\<forall>k a b. match k b \<and> dup a b \<longrightarrow> match k a) \<and> (\<forall>k a b. match k a \<and> match k b \<longrightarrow> dup a b) \<longrightarrow>
        joined_rows match hr (earnings\<lparr>frows := drop_duplicates_first dup [] (frows earnings)\<rparr>)
          = map (\<lambda>h. joined_row hr earnings h
                       (List.find (\<lambda>e. match (row_key h) (row_key e)) (frows earnings)))
              (frows hr)"
    using joined_rows_first [of match dup hr earnings] by blast
  from 1 2 show ?thesis unfolding ms_def ps_def E_def by blast
qed

text \<open>
  Two detail rows with the identifier \<open>A1\<close>, with regular wages \<open>100\<close> and then \<open>200\<close>: the
  combined record that \<open>import_payroll_file\<close> makes for the roster entry \<open>A1\<close> has \<open>200\<close>. A
  roster row with the key \<open>1\<close>, an integer, and two detail rows with the key \<open>1.0\<close>, a
  float, with regular wages \<open>100.5\<close> and then \<open>7.0\<close>: the one row of the FY2025 join has
  \<open>100.5\<close>, with a library that compares numbers by their value and leaves the joined
  column as it is.
\<close>

theorem join_detail_choice_witness:
  "filter (\<lambda>p. identifier_of p = Some ''A1'')
     (map (\<lambda>row. parse_earnings_row (\<lambda>_. []) row [CStr ''TEMPORARY_ID'', CStr ''REGULAR_WAGES''])
        [[CStr ''A1'', CFloat (Fin 100)], [CStr ''A1'', CFloat (Fin 200)]]) \<noteq> []
   \<and> (0::nat) < length [(''A1'', [(''temporary_id'', VStr ''A1'')])]
   \<and> fst ([(''A1'', [(''temporary_id'', VStr ''A1'')])] ! 0) = ''A1''
   \<and> map_of (join_records 2020 [(''A1'', [(''temporary_id'', VStr ''A1'')])]
        (read_earnings (\<lambda>_. []) [CStr ''TEMPORARY_ID'', CStr ''REGULAR_WAGES'']
           [[CStr ''A1'', CFloat (Fin 100)], [CStr ''A1'', CFloat (Fin 200)]]) ! 0) ''regular_wages''
      = Some (VFloat (Fin 200))
   \<and> joined_rows text_or_number_key
        \<lparr>fcols = [''TEMPORARY_ID''], frows = [[(''TEMPORARY_ID'', CInt 1)]]\<rparr>
        (\<lparr>fcols = [''TEMPORARY_ID'', ''REGULAR_WAGES''],
          frows = [[(''TEMPORARY_ID'', CFloat (Fin 1)), (''REGULAR_WAGES'', CFloat (Fin (201 / 2)))],
                   [(''TEMPORARY_ID'', CFloat (Fin 1)), (''REGULAR_WAGES'', CFloat (Fin 7))]]\<rparr>
         \<lparr>frows := drop_duplicates_first text_or_number_key []
                      [[(''TEMPORARY_ID'', CFloat (Fin 1)), (''REGULAR_WAGES'', CFloat (Fin (201 / 2)))],
                       [(''TEMPORARY_ID'', CFloat (Fin 1)), (''REGULAR_WAGES'', CFloat (Fin 7))]]\<rparr>)
      = [[(''TEMPORARY_ID'', CInt 1), (''REGULAR_WAGES'', CFloat (Fin (201 / 2)))]]
   \<and> fy2025_join
        \<lparr>dup_key = \<lambda>_. text_or_number_key, same_key = \<lambda>_ _. Some text_or_number_key,
         merge_cast = Some, apply_to_int_safe = Some, to_numeric_fillna = Some,
         apply_last_hire_safe = Some, to_numeric_Int64 = Some, apply_int = Some\<rparr>
        \<lparr>fcols = [''TEMPORARY_ID''], frows = [[(''TEMPORARY_ID'', CInt 1)]]\<rparr>
        \<lparr>fcols = [''TEMPORARY_ID'', ''REGULAR_WAGES''],
         frows = [[(''TEMPORARY_ID'', CFloat (Fin 1)), (''REGULAR_WAGES'', CFloat (Fin (201 / 2)))],
                  [(''TEMPORARY_ID'', CFloat (Fin 1)), (''REGULAR_WAGES'', CFloat (Fin 7))]]\<rparr>
      = Inr \<lparr>fcols = [''TEMPORARY_ID'', ''REGULAR_WAGES'', ''fiscal_year''],
             frows = [[(''TEMPORARY_ID'', CInt 1), (''REGULAR_WAGES'', CFloat (Fin (201 / 2))),
                       (''fiscal_year'', CStr ''2025'')]]\<rparr>"
proof -
  let ?hdr = "[CStr ''TEMPORARY_ID'', CStr ''REGULAR_WAGES'']"
  let ?rws = "[[CStr ''A1'', CFloat (Fin 100)], [CStr ''A1'', CFloat (Fin 200)]]"
  let ?hr = "[(''A1'', [(''temporary_id'', VStr ''A1'')])]"
  let ?d1 = "[(''temporary_id'', VStr ''A1''), (''regular_wages'', VFloat (Fin 100)),
              (''overtime_wages'', VFloat (Fin 0)), (''other_wages'', VFloat (Fin 0)),
              (''total_wages'', VFloat (Fin 0))]"
  let ?d2 = "[(''temporary_id'', VStr ''A1''), (''regular_wages'', VFloat (Fin 200)),
              (''overtime_wages'', VFloat (Fin 0)), (''other_wages'', VFloat (Fin 0)),
              (''total_wages'', VFloat (Fin 0))]"
  let ?roster = "\<lparr>fcols = [''TEMPORARY_ID''], frows = [[(''TEMPORARY_ID'', CInt 1)]]\<rparr>"
  let ?detail = "\<lparr>fcols = [''TEMPORARY_ID'', ''REGULAR_WAGES''],
          frows = [[(''TEMPORARY_ID'', CFloat (Fin 1)), (''REGULAR_WAGES'', CFloat (Fin (201 / 2)))],
                   [(''TEMPORARY_ID'', CFloat (Fin 1)), (''REGULAR_WAGES'', CFloat (Fin 7))]]\<rparr>"
  have ms: "filter (\<lambda>p. identifier_of p = Some ''A1'')
              (map (\<lambda>row. parse_earnings_row (\<lambda>_. []) row ?hdr) ?rws) = [Some ?d1, Some ?d2]"
    by code_simp
  have h1: "\<forall>k a b. text_or_number_key k b \<and> text_or_number_key a b \<longrightarrow> text_or_number_key k a"
    using text_or_number_key_sym text_or_number_key_trans by blast
  have h2: "\<forall>k a b. text_or_number_key k a \<and> text_or_number_key k b \<longrightarrow> text_or_number_key a b"
    using text_or_number_key_sym text_or_number_key_trans by blast
  have f: "map (\<lambda>h. joined_row ?roster ?detail h
                       (List.find (\<lambda>e. text_or_number_key (row_key h) (row_key e)) (frows ?detail)))
              (frows ?roster)
           = [[(''TEMPORARY_ID'', CInt 1), (''REGULAR_WAGES'', CFloat (Fin (201 / 2)))]]"
    by code_simp
  note t = join_detail_choice [of "''A1''" "\<lambda>_. []" ?hdr ?rws ?hr 2020
             text_or_number_key text_or_number_key ?roster ?detail]
  from t [THEN conjunct1] ms
  have a: "map_of (join_records 2020 ?hr (read_earnings (\<lambda>_. []) ?hdr ?rws) ! 0) ''regular_wages''
        = map_of ?d2 ''regular_wages''"
    by simp
  from t [THEN conjunct2] h1 h2
  have "joined_rows text_or_number_key ?roster
          (?detail\<lparr>frows := drop_duplicates_first text_or_number_key [] (frows ?detail)\<rparr>)
        = map (\<lambda>h. joined_row ?roster ?detail h
                       (List.find (\<lambda>e. text_or_number_key (row_key h) (row_key e)) (frows ?detail)))
              (frows ?roster)"
    by blast
  with f have b: "joined_rows text_or_number_key ?roster
          (?detail\<lparr>frows := drop_duplicates_first text_or_number_key [] (frows ?detail)\<rparr>)
        = [[(''TEMPORARY_ID'', CInt 1), (''REGULAR_WAGES'', CFloat (Fin (201 / 2)))]]"
    by simp
  from ms have c: "filter (\<lambda>p. identifier_of p = Some ''A1'')
              (map (\<lambda>row. parse_earnings_row (\<lambda>_. []) row ?hdr) ?rws) \<noteq> []"
    by simp
  from a have a': "map_of (join_records 2020 ?hr (read_earnings (\<lambda>_. []) ?hdr ?rws) ! 0) ''regular_wages''
        = Some (VFloat (Fin 200))"
    by simp
  have d: "(0::nat) < length ?hr \<and> fst (?hr ! 0) = ''A1''" by simp
  from b have b': "joined_rows text_or_number_key ?roster
          (?detail\<lparr>frows := drop_duplicates_first text_or_number_key []
             [[(''TEMPORARY_ID'', CFloat (Fin 1)), (''REGULAR_WAGES'', CFloat (Fin (201 / 2)))],
              [(''TEMPORARY_ID'', CFloat (Fin 1)), (''REGULAR_WAGES'', CFloat (Fin 7))]]\<rparr>)
        = [[(''TEMPORARY_ID'', CInt 1), (''REGULAR_WAGES'', CFloat (Fin (201 / 2)))]]"
    by simp
  have e: "fy2025_join
        \<lparr>dup_key = \<lambda>_. text_or_number_key, same_key = \<lambda>_ _. Some text_or_number_key,
         merge_cast = Some, apply_to_int_safe = Some, to_numeric_fillna = Some,
         apply_last_hire_safe = Some, to_numeric_Int64 = Some, apply_int = Some\<rparr>
        ?roster ?detail
      = Inr \<lparr>fcols = [''TEMPORARY_ID'', ''REGULAR_WAGES'', ''fiscal_year''],
             frows = [[(''TEMPORARY_ID'', CInt 1), (''REGULAR_WAGES'', CFloat (Fin (201 / 2))),
                       (''fiscal_year'', CStr ''2025'')]]\<rparr>"
    by code_simp
  from c d a' b' e show ?thesis by blast
qed

text \<open>
  C1 as stated fails on the FY2025 script: of two detail rows with the identifier \<open>A1\<close>,
  with regular wages \<open>100\<close> and then \<open>200\<close>, the joined row has \<open>100\<close>, the first. The
  library here compares the keys, which are texts, as they are, and leaves the joined
  column, which has an integer in every row, as it is.
\<close>

theorem join_detail_choice_counterexample:
  "fy2025_join
     \<lparr>dup_key = \<lambda>_. text_or_number_key, same_key = \<lambda>_ _. Some text_or_number_key,
      merge_cast = Some, apply_to_int_safe = Some, to_numeric_fillna = Some,
      apply_last_hire_safe = Some, to_numeric_Int64 = Some, apply_int = Some\<rparr>
     \<lparr>fcols = [''TEMPORARY_ID''], frows = [[(''TEMPORARY_ID'', CStr ''A1'')]]\<rparr>
     \<lparr>fcols = [''TEMPORARY_ID'', ''REGULAR_WAGES''],
      frows = [[(''TEMPORARY_ID'', CStr ''A1''), (''REGULAR_WAGES'', CInt 100)],
               [(''TEMPORARY_ID'', CStr ''A1''), (''REGULAR_WAGES'', CInt 200)]]\<rparr>
   = Inr \<lparr>fcols = [''TEMPORARY_ID'', ''REGULAR_WAGES'', ''fiscal_year''],
          frows = [[(''TEMPORARY_ID'', CStr ''A1''), (''REGULAR_WAGES'', CInt 100),
                    (''fiscal_year'', CStr ''2025'')]]\<rparr>"
  by code_simp

lemma set_slices: "b \<in> set (slices B xs) \<Longrightarrow> set b \<subseteq> set xs"
proof -
  assume "b \<in> set (slices B xs)"
  then obtain i where "b = take B (drop i xs)" by (auto simp: slices_def)
  then show "set b \<subseteq> set xs"
    by (metis set_take_subset set_drop_subset subset_trans)
qed

lemma fiscal_year_combine: "map_of (combine fy ed item) ''fiscal_year'' = Some (VStr (str_int fy))"
  by (cases item) (simp add: map_of_combine)

lemma import_payroll_file_calls:
  "snd (import_payroll_file frepr B store wb fy) = [] \<or>
   (\<exists>hr_data ed. snd (import_payroll_file frepr B store wb fy)
                  = map Insert (slices B (join_records fy hr_data ed)))"
  by (auto simp: import_payroll_file_def Let_def payroll_load_calls
           split: option.splits prod.splits)



text \<open>
  C2 fails on the code. \<open>import_payroll_file\<close> files the roster rows in a dictionary keyed
  by the identifier before it joins them: the identifiers of the joined entries are
  pairwise different, and the join makes one record per entry. Two roster rows that share
  an identifier therefore give one combined record, that of the later row: with the rows
  \<open>(A1, 1)\<close> and \<open>(A1, 2)\<close>, both of which parse with the identifier \<open>A1\<close>, the join has one
  record, with record number \<open>2\<close>, and the run reports one inserted record.
\<close>

theorem join_collapses_shared_identifier:
  "distinct (map fst (read_hr frepr hdr a rws))
   \<and> length (join_records fy (read_hr frepr hdr a rws) ed) = length (read_hr frepr hdr a rws)
   \<and> identifier_of (parse_hr_row (\<lambda>_. []) [CStr ''A1'', CInt 1]
                       [CStr ''TEMPORARY_ID'', CStr ''RECORD_NBR''] None) = Some ''A1''
   \<and> identifier_of (parse_hr_row (\<lambda>_. []) [CStr ''A1'', CInt 2]
                       [CStr ''TEMPORARY_ID'', CStr ''RECORD_NBR''] None) = Some ''A1''
   \<and> map (\<lambda>r. map_of r ''record_nbr'')
        (join_records 2020
           (read_hr (\<lambda>_. []) [CStr ''TEMPORARY_ID'', CStr ''RECORD_NBR''] None
              [[CStr ''A1'', CInt 1], [CStr ''A1'', CInt 2]])
           (read_earnings (\<lambda>_. []) [CStr ''TEMPORARY_ID'', CStr ''REGULAR_WAGES'']
              [[CStr ''A1'', CFloat (Fin 100)]])) = [Some (VInt 2)]
   \<and> fst (import_payroll_file (\<lambda>_. []) 1000 (\<lambda>_ _. Returned 0)
           [(''FY20 HR INFO'', \<lparr>header = [CStr ''TEMPORARY_ID'', CStr ''RECORD_NBR''],
                                 rows = [[CStr ''A1'', CInt 1], [CStr ''A1'', CInt 2]]\<rparr>),
            (''FY20 EARNINGS'', \<lparr>header = [CStr ''TEMPORARY_ID'', CStr ''REGULAR_WAGES''],
                                  rows = [[CStr ''A1'', CFloat (Fin 100)]]\<rparr>)] 2020) = (1, 0)"
proof -
  have 1: "distinct (map fst (read_hr frepr hdr a rws))"
    by (simp add: read_hr_fold distinct_fold_store_parsed)
  have 2: "length (join_records fy (read_hr frepr hdr a rws) ed) = length (read_hr frepr hdr a rws)"
    by (simp add: join_records_def)
  have 3: "identifier_of (parse_hr_row (\<lambda>_. []) [CStr ''A1'', CInt 1]
                       [CStr ''TEMPORARY_ID'', CStr ''RECORD_NBR''] None) = Some ''A1''"
    by code_simp
  have 4: "identifier_of (parse_hr_row (\<lambda>_. []) [CStr ''A1'', CInt 2]
                       [CStr ''TEMPORARY_ID'', CStr ''RECORD_NBR''] None) = Some ''A1''"
    by code_simp
  have 5: "map (\<lambda>r. map_of r ''record_nbr'')
        (join_records 2020
           (read_hr (\<lambda>_. []) [CStr ''TEMPORARY_ID'', CStr ''RECORD_NBR''] None
              [[CStr ''A1'', CInt 1], [CStr ''A1'', CInt 2]])
           (read_earnings (\<lambda>_. []) [CStr ''TEMPORARY_ID'', CStr ''REGULAR_WAGES'']
              [[CStr ''A1'', CFloat (Fin 100)]])) = [Some (VInt 2)]"
    by code_simp
  have 6: "fst (import_payroll_file (\<lambda>_. []) 1000 (\<lambda>_ _. Returned 0)
           [(''FY20 HR INFO'', \<lparr>header = [CStr ''TEMPORARY_ID'', CStr ''RECORD_NBR''],
                                 rows = [[CStr ''A1'', CInt 1], [CStr ''A1'', CInt 2]]\<rparr>),
            (''FY20 EARNINGS'', \<lparr>header = [CStr ''TEMPORARY_ID'', CStr ''REGULAR_WAGES''],
                                  rows = [[CStr ''A1'', CFloat (Fin 100)]]\<rparr>)] 2020) = (1, 0)"
    by code_simp
  from 1 2 3 4 5 6 show ?thesis by blast
qed

end
